theory Spec2Isabelle
  imports Complex_Main "HOL-Library.Char_ord" "HOL-Library.List_Lexorder" "HOL-Library.Sublist"
begin

section \<open>Tables: the part of the dataframe library the two modules use\<close>

text \<open>
  Both modules hold a pandas DataFrame and only read it. A frame is modelled as its row
  count and its named columns; a column carries its dtype in its constructor: 64-bit
  integers (never missing), floats (\<open>None\<close> is NaN, the missing value) and Python strings
  under dtype \<open>object\<close> (\<open>None\<close> is the missing value). Floats are idealised as reals, and
  the not-a-number sentinel of a computed statistic is \<open>None\<close>. Categorical, boolean and
  datetime columns, mixed object columns and duplicated column names are outside the model.
\<close>

datatype error = KeyError string | TypeError | ValueError

datatype dtype = Int64 | Float64 | Object

datatype val = VInt int | VFloat real | VStr string

datatype series = IntCol "int list" | FloatCol "real option list" | StrCol "string option list"

fun dtypes :: "series \<Rightarrow> dtype" where
  "dtypes (IntCol xs) = Int64"
| "dtypes (FloatCol xs) = Float64"
| "dtypes (StrCol xs) = Object"

text \<open>The cells of a column, \<open>None\<close> where the value is missing.\<close>

fun cells :: "series \<Rightarrow> val option list" where
  "cells (IntCol xs) = map (\<lambda>x. Some (VInt x)) xs"
| "cells (FloatCol xs) = map (map_option VFloat) xs"
| "cells (StrCol xs) = map (map_option VStr) xs"

record dataframe =
  n_rows :: nat
  columns :: "(string \<times> series) list"

text \<open>The invariant of a frame: column names are unique and every column has one cell per row.\<close>

definition wf_df :: "dataframe \<Rightarrow> bool" where
  "wf_df d \<longleftrightarrow> distinct (map fst (columns d))
     \<and> list_all (\<lambda>(name, c). length (cells c) = n_rows d) (columns d)"

text \<open>\<^verbatim>\<open>df[col]\<close>: a missing column raises KeyError.\<close>

definition getitem :: "dataframe \<Rightarrow> string \<Rightarrow> error + series" where
  "getitem d col = (case map_of (columns d) col of None \<Rightarrow> Inl (KeyError col) | Some c \<Rightarrow> Inr c)"

text \<open>\<^verbatim>\<open>s.isna()\<close>, and \<^verbatim>\<open>.sum()\<close> and \<^verbatim>\<open>.mean()\<close> of a boolean column (the mean of no
  rows is NaN).\<close>

definition isna :: "series \<Rightarrow> bool list" where
  "isna s = map (\<lambda>c. c = None) (cells s)"

definition bool_sum :: "bool list \<Rightarrow> nat" where
  "bool_sum bs = length (filter (\<lambda>b. b) bs)"

definition bool_mean :: "bool list \<Rightarrow> real option" where
  "bool_mean bs = (if bs = [] then None else Some (real (bool_sum bs) / real (length bs)))"

text \<open>\<^verbatim>\<open>s.nunique(dropna=True)\<close>: the number of distinct values that are not missing.\<close>

definition nunique :: "series \<Rightarrow> nat" where
  "nunique s = length (remdups (filter (\<lambda>c. c \<noteq> None) (cells s)))"

text \<open>Dropping the missing values of a list of cells.\<close>

fun dropna :: "'a option list \<Rightarrow> 'a list" where
  "dropna [] = []"
| "dropna (None # xs) = dropna xs"
| "dropna (Some x # xs) = x # dropna xs"

text \<open>The numbers of a numeric column; an \<open>object\<close> column has none.\<close>

fun numeric_values :: "series \<Rightarrow> real option list option" where
  "numeric_values (IntCol xs) = Some (map (\<lambda>x. Some (real_of_int x)) xs)"
| "numeric_values (FloatCol xs) = Some xs"
| "numeric_values (StrCol xs) = None"

text \<open>Mean and sample standard deviation (\<^verbatim>\<open>ddof=1\<close>) over the values that are not missing:
  NaN when there is no value, respectively fewer than two.\<close>

definition nanmean :: "real option list \<Rightarrow> real option" where
  "nanmean xs = (let v = dropna xs in
     if v = [] then None else Some (sum_list v / real (length v)))"

definition nanstd :: "real option list \<Rightarrow> real option" where
  "nanstd xs = (let v = dropna xs; n = length v in
     if n < 2 then None
     else let m = sum_list v / real n in
       Some (sqrt (sum_list (map (\<lambda>x. (x - m)\<^sup>2) v) / real (n - 1))))"

text \<open>\<^verbatim>\<open>s.mean()\<close> and \<^verbatim>\<open>s.std()\<close>: a type error on strings.\<close>

definition series_mean :: "series \<Rightarrow> error + real option" where
  "series_mean s = (case numeric_values s of None \<Rightarrow> Inl TypeError | Some xs \<Rightarrow> Inr (nanmean xs))"

definition series_std :: "series \<Rightarrow> error + real option" where
  "series_std s = (case numeric_values s of None \<Rightarrow> Inl TypeError | Some xs \<Rightarrow> Inr (nanstd xs))"

text \<open>The distinct elements of a list in order of first appearance.\<close>

definition unique :: "'a list \<Rightarrow> 'a list" where
  "unique xs = rev (remdups (rev xs))"

text \<open>
  \<^verbatim>\<open>s.value_counts(dropna=...)\<close>: every distinct value with the number of rows holding it,
  the most frequent first. The library does not promise an order among equal counts; the
  model keeps them in order of first appearance. With \<^verbatim>\<open>dropna=True\<close>, the default the
  source relies on, missing cells are not counted.
\<close>

definition value_counts :: "bool \<Rightarrow> series \<Rightarrow> (val option \<times> nat) list" where
  "value_counts drop_missing s =
     (let cs = (if drop_missing then filter (\<lambda>c. c \<noteq> None) (cells s) else cells s)
      in sort_key (\<lambda>(v, n). - int n) (map (\<lambda>v. (v, count_list cs v)) (unique cs)))"

text \<open>\<^verbatim>\<open>.head(n)\<close>: the first \<open>n\<close> entries, all but the last \<open>-n\<close> for a negative \<open>n\<close>.\<close>

definition head :: "int \<Rightarrow> 'a list \<Rightarrow> 'a list" where
  "head n xs = (if 0 \<le> n then take (nat n) xs else take (length xs - nat (- n)) xs)"

text \<open>A Python dict keeps insertion order; assigning to a key it has replaces the value in place.\<close>

definition dict_setitem :: "('k \<times> 'v) list \<Rightarrow> 'k \<Rightarrow> 'v \<Rightarrow> ('k \<times> 'v) list" where
  "dict_setitem d k v =
     (if k \<in> fst ` set d then map (\<lambda>(k', v'). if k' = k then (k', v) else (k', v')) d
      else d @ [(k, v)])"

text \<open>
  Linear-interpolation quantile of the values \<open>v\<close> at the fraction \<open>num / den\<close>: the position
  \<open>(n - 1) * num / den\<close> in the sorted values, split into its integer part and remainder.
\<close>

definition interpolate :: "real list \<Rightarrow> nat \<Rightarrow> nat \<Rightarrow> real" where
  "interpolate xs num den =
     (let pos = (length xs - 1) * num; lo = pos div den; r = pos mod den in
        if r = 0 then xs ! lo
        else xs ! lo + (real r / real den) * (xs ! (lo + 1) - xs ! lo))"

definition quantile :: "real list \<Rightarrow> nat \<Rightarrow> nat \<Rightarrow> real option" where
  "quantile v num den = (if v = [] then None else Some (interpolate (sort v) num den))"

text \<open>The keys of \<^verbatim>\<open>groupby(col)\<close>: the distinct values that are not missing, sorted.\<close>

fun group_keys :: "series \<Rightarrow> val list" where
  "group_keys (IntCol xs) = map VInt (sort (remdups xs))"
| "group_keys (FloatCol xs) = map VFloat (sort (remdups (dropna xs)))"
| "group_keys (StrCol xs) = map VStr (sort (remdups (dropna xs)))"

text \<open>The target values of the rows whose key cell is \<open>k\<close>.\<close>

definition group_values :: "'k list \<Rightarrow> 'v list \<Rightarrow> 'k \<Rightarrow> 'v list" where
  "group_values ks vs k = map snd (filter (\<lambda>(c, t). c = k) (zip ks vs))"

text \<open>\<^verbatim>\<open>groupby(col)[target].mean()\<close> once both columns are found: one entry per key, the
  mean of the target over the rows of that key; a type error on a string target.\<close>

definition groupby_mean :: "series \<Rightarrow> series \<Rightarrow> error + (val \<times> real option) list" where
  "groupby_mean key_col target =
     (case numeric_values target of
        None \<Rightarrow> Inl TypeError
      | Some ts \<Rightarrow> Inr (map (\<lambda>k. (k, nanmean (group_values (cells key_col) ts (Some k)))) (group_keys key_col)))"

text \<open>\<^verbatim>\<open>df[[c1, c2, ...]]\<close>: the named columns in the order asked for; KeyError when one is
  missing (the model names the first missing one).\<close>

fun select_columns :: "dataframe \<Rightarrow> string list \<Rightarrow> error + (string \<times> series) list" where
  "select_columns d [] = Inr []"
| "select_columns d (c # cs) =
     (case getitem d c of
        Inl e \<Rightarrow> Inl e
      | Inr s \<Rightarrow> (case select_columns d cs of Inl e \<Rightarrow> Inl e | Inr rest \<Rightarrow> Inr ((c, s) # rest)))"

text \<open>
  \<^verbatim>\<open>.describe().T\<close>: one row of statistics per described column. Numeric columns get
  count, mean, std, min, the three quartiles and max; when the frame has no numeric column,
  its string columns are described by count, number of distinct values, most frequent value
  and its frequency.
\<close>

datatype describe_row =
    NumericStats nat "real option" "real option" "real option" "real option" "real option"
      "real option" "real option"
  | ObjectStats nat nat "val option" "nat option"

definition describe_numeric :: "real option list \<Rightarrow> describe_row" where
  "describe_numeric xs = (let v = dropna xs in
     NumericStats (length v) (nanmean xs) (nanstd xs) (quantile v 0 4)
       (quantile v 1 4) (quantile v 2 4) (quantile v 3 4) (quantile v 4 4))"

definition describe_object :: "series \<Rightarrow> describe_row" where
  "describe_object s = (let objcounts = value_counts True s in
     ObjectStats (length (dropna (cells s))) (length objcounts)
       (case objcounts of [] \<Rightarrow> None | (top_value, freq) # rest \<Rightarrow> top_value)
       (case objcounts of [] \<Rightarrow> None | (top_value, freq) # rest \<Rightarrow> Some freq))"

definition describe_column :: "series \<Rightarrow> describe_row" where
  "describe_column s =
     (case numeric_values s of None \<Rightarrow> describe_object s | Some xs \<Rightarrow> describe_numeric xs)"

definition is_numeric :: "series \<Rightarrow> bool" where
  "is_numeric s \<longleftrightarrow> dtypes s = Int64 \<or> dtypes s = Float64"

text \<open>\<^verbatim>\<open>select_dtypes(include='number')\<close>: the numeric columns.\<close>

definition select_dtypes_number :: "(string \<times> series) list \<Rightarrow> (string \<times> series) list" where
  "select_dtypes_number cols = filter (\<lambda>(name, s). is_numeric s) cols"

definition describe_T :: "(string \<times> series) list \<Rightarrow> (string \<times> describe_row) list" where
  "describe_T cols =
     (let data = select_dtypes_number cols in
      map (\<lambda>(name, s). (name, describe_column s)) (if data = [] then cols else data))"

text \<open>
  \<^verbatim>\<open>pd.qcut(s, q, duplicates='drop')\<close>. The edges are the quantiles at \<open>0/q, 1/q, ..., q/q\<close>
  of the values that are not missing; repeated edges are dropped, except when there are
  only two edges. A value gets the bucket whose interval \<open>(left, right]\<close> holds it, the lowest
  edge counting into the first bucket; a missing value gets none. The result is a categorical:
  its categories, the intervals between consecutive edges, and one code per row. Strings
  cannot be cut. For \<open>q < 1\<close> and for a column without any value the library's behaviour
  depends on its version; the model raises there.
\<close>

record categorical =
  categories :: "(real \<times> real) list"
  codes :: "nat option list"

definition quantile_edges :: "real list \<Rightarrow> nat \<Rightarrow> real list" where
  "quantile_edges v q = map (\<lambda>i. interpolate (sort v) i q) [0..<q + 1]"

definition drop_duplicate_edges :: "real list \<Rightarrow> real list" where
  "drop_duplicate_edges bins =
     (let unique_bins = unique bins in
      if length unique_bins < length bins \<and> length bins \<noteq> 2 then unique_bins else bins)"

definition searchsorted_left :: "real list \<Rightarrow> real \<Rightarrow> nat" where
  "searchsorted_left bins x = length (takeWhile (\<lambda>e. e < x) bins)"

definition bucket_code :: "real list \<Rightarrow> real \<Rightarrow> nat option" where
  "bucket_code bins x =
     (let ids = (if x = hd bins then 1 else searchsorted_left bins x) in
      if ids = length bins \<or> ids = 0 then None else Some (ids - 1))"

definition qcut :: "series \<Rightarrow> int \<Rightarrow> error + categorical" where
  "qcut s q =
     (case numeric_values s of
        None \<Rightarrow> Inl TypeError
      | Some xs \<Rightarrow>
          (let v = dropna xs in
           if q < 1 \<or> v = [] then Inl ValueError
           else let bins = drop_duplicate_edges (quantile_edges v (nat q)) in
             Inr \<lparr> categories = zip (butlast bins) (tl bins),
                   codes = map (\<lambda>c. case c of None \<Rightarrow> None | Some x \<Rightarrow> bucket_code bins x) xs \<rparr>))"

text \<open>
  \<^verbatim>\<open>groupby(buckets)[target].agg(n_loans="count", default_rate="mean").reset_index()\<close>
  once the target is found: per bucket, the number of rows with a target value and the mean
  of these values. Grouping by a categorical lists every category when \<^verbatim>\<open>observed\<close> is
  false and only the categories some row has when it is true; the source leaves
  \<^verbatim>\<open>observed\<close> to the library's default, which differs between versions, so it is an
  argument here.
\<close>

record bucket_row =
  bucket :: "real \<times> real"
  n_loans :: nat
  default_rate :: "real option"

definition groupby_bucket_agg :: "bool \<Rightarrow> categorical \<Rightarrow> series \<Rightarrow> error + bucket_row list" where
  "groupby_bucket_agg observed buckets target =
     (case numeric_values target of
        None \<Rightarrow> Inl TypeError
      | Some ts \<Rightarrow>
          Inr (map (\<lambda>j. let g = group_values (codes buckets) ts (Some j) in
                      \<lparr> bucket = categories buckets ! j, n_loans = length (dropna g),
                        default_rate = nanmean g \<rparr>)
                 (filter (\<lambda>j. \<not> observed \<or> Some j \<in> set (codes buckets))
                    [0..<length (categories buckets)])))"

text \<open>
  \<^verbatim>\<open>s.corr(t)\<close>: the Pearson coefficient over the rows where both values are present,
  clipped to \<open>[-1, 1]\<close> as the numeric library does; NaN without any such row or when one
  side has no variance. Strings raise.
\<close>

definition pairwise_complete :: "real option list \<Rightarrow> real option list \<Rightarrow> (real \<times> real) list" where
  "pairwise_complete xs ys =
     dropna (map (\<lambda>(a, b). case a of None \<Rightarrow> None
                              | Some x \<Rightarrow> (case b of None \<Rightarrow> None | Some y \<Rightarrow> Some (x, y)))
               (zip xs ys))"

definition pearson :: "(real \<times> real) list \<Rightarrow> real option" where
  "pearson ps =
     (let n = real (length ps);
          mx = sum_list (map fst ps) / n;
          my = sum_list (map snd ps) / n;
          sxy = sum_list (map (\<lambda>(x, y). (x - mx) * (y - my)) ps);
          sxx = sum_list (map (\<lambda>(x, y). (x - mx)\<^sup>2) ps);
          syy = sum_list (map (\<lambda>(x, y). (y - my)\<^sup>2) ps)
      in if ps = [] \<or> sxx = 0 \<or> syy = 0 then None
         else Some (max (- 1) (min 1 (sxy / (sqrt sxx * sqrt syy)))))"

definition series_corr :: "series \<Rightarrow> series \<Rightarrow> error + real option" where
  "series_corr s t =
     (case numeric_values s of
        None \<Rightarrow> Inl TypeError
      | Some xs \<Rightarrow>
          (case numeric_values t of
             None \<Rightarrow> Inl TypeError
           | Some ys \<Rightarrow> Inr (pearson (pairwise_complete xs ys))))"

text \<open>\<^verbatim>\<open>pd.Series(data=..., index=...)\<close>: the lengths must agree.\<close>

definition make_series :: "'v list \<Rightarrow> 'k list \<Rightarrow> error + ('k \<times> 'v) list" where
  "make_series data index = (if length data = length index then Inr (zip index data) else Inl ValueError)"

text \<open>
  Calling every producer of a dict of steps in its order and storing each result under the
  step's name. An exception of a producer leaves the loop and the function: nothing is
  returned.
\<close>

fun run_steps ::
  "(string \<times> 'r) list \<Rightarrow> (string \<times> (unit \<Rightarrow> error + 'r)) list \<Rightarrow> error + (string \<times> 'r) list" where
  "run_steps functions_dict [] = Inr functions_dict"
| "run_steps functions_dict ((k, v) # rest) =
     (case v () of
        Inl e \<Rightarrow> Inl e
      | Inr r \<Rightarrow> run_steps (dict_setitem functions_dict k r) rest)"

section \<open>Borrower profile report\<close>

definition BORROWER_COLS :: "string list" where
  "BORROWER_COLS =
    [''id'', ''member_id'',
     ''emp_title'', ''emp_length'',
     ''home_ownership'',
     ''annual_inc'', ''annual_inc_joint'',
     ''verification_status'', ''verification_status_joint'',
     ''zip_code'', ''addr_state'',
     ''purpose'', ''title'', ''desc'',
     ''issue_d'', ''pymnt_plan'', ''policy_code'',
     ''url'']"

text \<open>The report object: the frame it holds and the name of the target column.\<close>

record eda =
  df :: dataframe
  target_col :: string

record summary_row =
  column :: string
  dtype :: dtype
  n_missing :: nat
  missing_pct :: "real option"

record borrower_row = summary_row +
  n_unique :: nat

text \<open>The body of the loop of \<^verbatim>\<open>structure_summary\<close> for one column name.\<close>

definition structure_row :: "eda \<Rightarrow> string \<Rightarrow> error + borrower_row" where
  "structure_row self col =
     (case getitem (df self) col of
        Inl e \<Rightarrow> Inl e
      | Inr s \<Rightarrow> Inr \<lparr> column = col, dtype = dtypes s,
                      n_missing = bool_sum (isna s),
                      missing_pct = bool_mean (isna s),
                      n_unique = nunique s \<rparr>)"

text \<open>The loop over the universe, appending one row to \<^verbatim>\<open>dataframe_list\<close> per column; the
  first failing lookup ends it.\<close>

fun structure_loop :: "eda \<Rightarrow> borrower_row list \<Rightarrow> string list \<Rightarrow> error + borrower_row list" where
  "structure_loop self dataframe_list [] = Inr dataframe_list"
| "structure_loop self dataframe_list (col # rest) =
     (case structure_row self col of
        Inl e \<Rightarrow> Inl e
      | Inr row \<Rightarrow> structure_loop self (dataframe_list @ [row]) rest)"

definition structure_summary :: "eda \<Rightarrow> error + borrower_row list" where
  "structure_summary self = structure_loop self [] BORROWER_COLS"

definition income_summary :: "eda \<Rightarrow> error + (string \<times> describe_row) list" where
  "income_summary self =
     (case select_columns (df self) [''annual_inc'', ''annual_inc_joint''] of
        Inl e \<Rightarrow> Inl e
      | Inr cols \<Rightarrow> Inr (describe_T cols))"

text \<open>The loop of \<^verbatim>\<open>categorical_freqs\<close>, filling \<^verbatim>\<open>info_dict\<close>.\<close>

fun freqs_loop ::
  "eda \<Rightarrow> int \<Rightarrow> (string \<times> (val option \<times> nat) list) list \<Rightarrow> string list
     \<Rightarrow> error + (string \<times> (val option \<times> nat) list) list" where
  "freqs_loop self max_levels info_dict [] = Inr info_dict"
| "freqs_loop self max_levels info_dict (var # rest) =
     (case getitem (df self) var of
        Inl e \<Rightarrow> Inl e
      | Inr s \<Rightarrow> freqs_loop self max_levels
                 (dict_setitem info_dict var (head max_levels (value_counts True s))) rest)"

definition list_of_dict_variables :: "string list" where
  "list_of_dict_variables = [''home_ownership'', ''addr_state'', ''purpose'']"

definition categorical_freqs ::
  "eda \<Rightarrow> int \<Rightarrow> error + (string \<times> (val option \<times> nat) list) list" where
  "categorical_freqs self max_levels = freqs_loop self max_levels [] list_of_dict_variables"

text \<open>\<^verbatim>\<open>self.df.groupby(col)[self.target_col].mean()\<close>: the grouping column is looked up
  first, then the target.\<close>

definition default_rate_by_category :: "eda \<Rightarrow> string \<Rightarrow> error + (val \<times> real option) list" where
  "default_rate_by_category self col =
     (case getitem (df self) col of
        Inl e \<Rightarrow> Inl e
      | Inr key_col \<Rightarrow>
          (case getitem (df self) (target_col self) of
             Inl e \<Rightarrow> Inl e
           | Inr target \<Rightarrow> groupby_mean key_col target))"

text \<open>The results a borrower step can produce.\<close>

datatype borrower_report =
    Structure "borrower_row list"
  | Income "(string \<times> describe_row) list"
  | Freqs "(string \<times> (val option \<times> nat) list) list"
  | DefaultRates "(val \<times> real option) list"

definition borrower_eda_steps :: "eda \<Rightarrow> (string \<times> (unit \<Rightarrow> error + borrower_report)) list" where
  "borrower_eda_steps eda =
     [(''structure'', \<lambda>u. map_sum id Structure (structure_summary eda)),
      (''income'', \<lambda>u. map_sum id Income (income_summary eda)),
      (''freqs'', \<lambda>u. map_sum id Freqs (categorical_freqs eda 10)),
      (''default_by_home_ownership'',
         \<lambda>u. map_sum id DefaultRates (default_rate_by_category eda ''home_ownership'')),
      (''default_by_purpose'',
         \<lambda>u. map_sum id DefaultRates (default_rate_by_category eda ''purpose''))]"

definition run_borrower_eda_pipeline :: "eda \<Rightarrow> error + (string \<times> borrower_report) list" where
  "run_borrower_eda_pipeline eda = run_steps [] (borrower_eda_steps eda)"

section \<open>Credit history report\<close>

definition CREDIT_NUMERIC_COLS :: "string list" where
  "CREDIT_NUMERIC_COLS =
    [''dti'', ''dti_joint'',
     ''delinq_2yrs'',
     ''mths_since_last_delinq'', ''mths_since_last_record'', ''mths_since_last_major_derog'',
     ''open_acc'', ''total_acc'', ''pub_rec'', ''acc_now_delinq'',
     ''revol_bal'', ''revol_util'', ''total_rev_hi_lim'',
     ''tot_coll_amt'', ''tot_cur_bal'', ''total_bal_il'',
     ''open_acc_6m'', ''open_il_6m'', ''open_il_12m'', ''open_il_24m'',
     ''mths_since_rcnt_il'',
     ''open_rv_12m'', ''open_rv_24m'',
     ''max_bal_bc'',
     ''all_util'',
     ''inq_last_6mths'', ''inq_last_12m'', ''inq_fi'',
     ''collections_12_mths_ex_med'']"

record credit_row = summary_row +
  mean :: "real option"
  std :: "real option"

text \<open>The body of the loop of \<^verbatim>\<open>credit_structure_summary\<close>: mean and std are computed when
  the column's dtype is among the dtypes of the frame's numeric columns.\<close>

definition credit_structure_row :: "eda \<Rightarrow> string \<Rightarrow> error + credit_row" where
  "credit_structure_row self col =
     (case getitem (df self) col of
        Inl e \<Rightarrow> Inl e
      | Inr s \<Rightarrow>
          if dtypes s \<in> set (map (\<lambda>(name, c). dtypes c) (select_dtypes_number (columns (df self))))
          then (case series_mean s of
                  Inl e \<Rightarrow> Inl e
                | Inr m \<Rightarrow>
                    (case series_std s of
                       Inl e \<Rightarrow> Inl e
                     | Inr sd \<Rightarrow> Inr \<lparr> column = col, dtype = dtypes s,
                                     n_missing = bool_sum (isna s),
                                     missing_pct = bool_mean (isna s),
                                     mean = m, std = sd \<rparr>))
          else Inr \<lparr> column = col, dtype = dtypes s,
                     n_missing = bool_sum (isna s),
                     missing_pct = bool_mean (isna s),
                     mean = None, std = None \<rparr>)"

fun credit_structure_loop :: "eda \<Rightarrow> credit_row list \<Rightarrow> string list \<Rightarrow> error + credit_row list" where
  "credit_structure_loop self dataframe_list [] = Inr dataframe_list"
| "credit_structure_loop self dataframe_list (col # rest) =
     (case credit_structure_row self col of
        Inl e \<Rightarrow> Inl e
      | Inr row \<Rightarrow> credit_structure_loop self (dataframe_list @ [row]) rest)"

definition credit_structure_summary :: "eda \<Rightarrow> error + credit_row list" where
  "credit_structure_summary self = credit_structure_loop self [] CREDIT_NUMERIC_COLS"

text \<open>\<^verbatim>\<open>default_rate_by_bucket\<close>: the column is looked up and cut first, the target is looked
  up by the grouping.\<close>

definition default_rate_by_bucket :: "bool \<Rightarrow> eda \<Rightarrow> string \<Rightarrow> int \<Rightarrow> error + bucket_row list" where
  "default_rate_by_bucket observed self col bins =
     (case getitem (df self) col of
        Inl e \<Rightarrow> Inl e
      | Inr s \<Rightarrow>
          (case qcut s bins of
             Inl e \<Rightarrow> Inl e
           | Inr buckets \<Rightarrow>
               (case getitem (df self) (target_col self) of
                  Inl e \<Rightarrow> Inl e
                | Inr target \<Rightarrow> groupby_bucket_agg observed buckets target)))"

fun corr_loop :: "eda \<Rightarrow> real option list \<Rightarrow> string list \<Rightarrow> error + real option list" where
  "corr_loop self list_of_corr [] = Inr list_of_corr"
| "corr_loop self list_of_corr (col # rest) =
     (case getitem (df self) col of
        Inl e \<Rightarrow> Inl e
      | Inr s \<Rightarrow>
          (case getitem (df self) (target_col self) of
             Inl e \<Rightarrow> Inl e
           | Inr t \<Rightarrow>
               (case series_corr s t of
                  Inl e \<Rightarrow> Inl e
                | Inr correlation \<Rightarrow> corr_loop self (list_of_corr @ [correlation]) rest)))"

definition correlation_with_default :: "eda \<Rightarrow> error + (string \<times> real option) list" where
  "correlation_with_default self =
     (case corr_loop self [] CREDIT_NUMERIC_COLS of
        Inl e \<Rightarrow> Inl e
      | Inr list_of_corr \<Rightarrow> make_series list_of_corr CREDIT_NUMERIC_COLS)"

datatype credit_report =
    CreditStructure "credit_row list"
  | Buckets "bucket_row list"
  | Correlations "(string \<times> real option) list"

text \<open>The dict \<^verbatim>\<open>step_name\<close> that \<^verbatim>\<open>credit_history_report\<close> builds, and the comprehension that
  calls its producers in order.\<close>

definition step_name :: "bool \<Rightarrow> eda \<Rightarrow> (string \<times> (unit \<Rightarrow> error + credit_report)) list" where
  "step_name observed eda =
     [(''structure_summary'', \<lambda>u. map_sum id CreditStructure (credit_structure_summary eda)),
      (''dti_buckets'', \<lambda>u. map_sum id Buckets (default_rate_by_bucket observed eda ''dti'' 5)),
      (''revol_util_buckets'',
         \<lambda>u. map_sum id Buckets (default_rate_by_bucket observed eda ''revol_util'' 5)),
      (''correlation_with_default'', \<lambda>u. map_sum id Correlations (correlation_with_default eda))]"

definition credit_history_report :: "bool \<Rightarrow> eda \<Rightarrow> error + (string \<times> credit_report) list" where
  "credit_history_report observed eda = run_steps [] (step_name observed eda)"

section \<open>Sample datasets\<close>

text \<open>A frame with every borrower column and the target, four rows, one of them without
  borrower data.\<close>

definition borrower_example :: eda where
  "borrower_example =
     \<lparr> df = \<lparr> n_rows = 4,
              columns = (''loan_status'', IntCol [1, 0, 1, 0])
                # map (\<lambda>c. (c, StrCol [Some ''RENT'', Some ''OWN'', None, Some ''RENT'']))
                    BORROWER_COLS \<rparr>,
       target_col = ''loan_status'' \<rparr>"

text \<open>A frame with every credit column and the target, all integer columns.\<close>

definition credit_example :: eda where
  "credit_example =
     \<lparr> df = \<lparr> n_rows = 3,
              columns = (''loan_status'', IntCol [0, 1, 1])
                # map (\<lambda>c. (c, IntCol [0, 0, 1])) CREDIT_NUMERIC_COLS \<rparr>,
       target_col = ''loan_status'' \<rparr>"

text \<open>The same frame with \<^verbatim>\<open>dti\<close> read as text.\<close>

definition credit_text_example :: eda where
  "credit_text_example =
     \<lparr> df = \<lparr> n_rows = 3,
              columns = (''loan_status'', IntCol [0, 1, 1])
                # (''dti'', StrCol [Some ''low'', Some ''low'', Some ''high''])
                # map (\<lambda>c. (c, IntCol [0, 0, 1])) (tl CREDIT_NUMERIC_COLS) \<rparr>,
       target_col = ''loan_status'' \<rparr>"

text \<open>A credit frame without \<^verbatim>\<open>dti_joint\<close>, and with \<^verbatim>\<open>dti\<close> read as text.\<close>

definition credit_gap_example :: eda where
  "credit_gap_example =
     \<lparr> df = \<lparr> n_rows = 3,
              columns = (''loan_status'', IntCol [0, 1, 1])
                # (''dti'', StrCol [Some ''low'', Some ''low'', Some ''high''])
                # map (\<lambda>c. (c, IntCol [0, 0, 1])) (drop 2 CREDIT_NUMERIC_COLS) \<rparr>,
       target_col = ''loan_status'' \<rparr>"

section \<open>Lookups and loops\<close>

lemma getitem_present:
  "col \<in> fst ` set (columns d) \<Longrightarrow> \<exists>s. getitem d col = Inr s \<and> (col, s) \<in> set (columns d)"
  unfolding getitem_def
  by (auto split: option.splits simp: map_of_eq_None_iff dest: map_of_SomeD)

lemma getitem_absent:
  "col \<notin> fst ` set (columns d) \<Longrightarrow> getitem d col = Inl (KeyError col)"
  unfolding getitem_def by (simp add: map_of_eq_None_iff split: option.splits)

lemma getitem_Inl: "getitem d col = Inl e \<Longrightarrow> e = KeyError col \<and> col \<notin> fst ` set (columns d)"
  unfolding getitem_def by (auto split: option.splits simp: map_of_eq_None_iff)

lemma wf_df_length:
  "wf_df d \<Longrightarrow> getitem d col = Inr s \<Longrightarrow> length (cells s) = n_rows d"
  unfolding wf_df_def getitem_def
  by (auto split: option.splits dest!: map_of_SomeD simp: list_all_iff)

lemma structure_loop_Inr:
  "structure_loop self acc cs = Inr out \<longleftrightarrow>
     (\<exists>rows. out = acc @ rows \<and> list_all2 (\<lambda>c r. structure_row self c = Inr r) cs rows)"
proof (induction cs arbitrary: acc)
  case Nil
  then show ?case by auto
next
  case (Cons c cs)
  show ?case
  proof (cases "structure_row self c")
    case (Inl e)
    then show ?thesis by (auto simp: list_all2_Cons1)
  next
    case (Inr r)
    then show ?thesis by (auto simp: Cons.IH list_all2_Cons1)
  qed
qed

lemma structure_row_column: "structure_row self c = Inr r \<Longrightarrow> column r = c"
  unfolding structure_row_def by (auto split: sum.splits)

lemma bool_sum_le: "bool_sum bs \<le> length bs"
  unfolding bool_sum_def by simp

lemma structure_row_pct:
  assumes "wf_df (df self)" "structure_row self c = Inr r"
  shows "(0 < n_rows (df self) \<longrightarrow> missing_pct r = Some (real (n_missing r) / real (n_rows (df self))))
       \<and> (n_rows (df self) = 0 \<longrightarrow> missing_pct r = None \<and> n_missing r = 0)"
proof -
  from assms(2) obtain s where s: "getitem (df self) c = Inr s"
    and r: "r = \<lparr> column = c, dtype = dtypes s, n_missing = bool_sum (isna s),
                   missing_pct = bool_mean (isna s), n_unique = nunique s \<rparr>"
    unfolding structure_row_def by (auto split: sum.splits)
  have len: "length (isna s) = n_rows (df self)"
    using wf_df_length [OF assms(1) s] by (simp add: isna_def)
  show ?thesis
  proof (cases "isna s = []")
    case True
    then show ?thesis using len by (simp add: r bool_mean_def bool_sum_def)
  next
    case False
    then have "0 < n_rows (df self)" using len by (cases "isna s") auto
    then show ?thesis using len False by (simp add: r bool_mean_def)
  qed
qed

lemma list_all2_choose:
  "\<forall>c \<in> set cs. \<exists>r. P c r \<Longrightarrow> \<exists>rows. list_all2 P cs rows"
  by (induction cs) (auto simp: list_all2_Cons1)

lemma list_all2_right_mem:
  "list_all2 P cs rows \<Longrightarrow> r \<in> set rows \<Longrightarrow> \<exists>c \<in> set cs. P c r"
  by (induction cs rows rule: list_all2_induct) auto

lemma list_all2_map_eq:
  "list_all2 (\<lambda>c r. f r = c) cs rows \<Longrightarrow> map f rows = cs"
  by (induction cs rows rule: list_all2_induct) auto

lemma borrower_example_wf: "wf_df (df borrower_example)"
  by (simp add: borrower_example_def wf_df_def BORROWER_COLS_def)

lemma borrower_example_cols: "set BORROWER_COLS \<subseteq> fst ` set (columns (df borrower_example))"
  by (auto simp add: borrower_example_def image_image)

section \<open>The borrower structure summary\<close>

text \<open>
  Claim C2. On a frame that has every column of the borrower universe, \<^verbatim>\<open>structure_summary\<close>
  returns one row per universe column, in the order of \<^verbatim>\<open>BORROWER_COLS\<close>, and in every row
  \<^verbatim>\<open>missing_pct\<close> is \<^verbatim>\<open>n_missing\<close> divided by the number of rows of the frame. On a frame
  without rows the quotient is 0/0: both the mean of the empty boolean column and the
  division give the not-a-number sentinel.
\<close>

theorem structure_summary_rows:
  assumes "wf_df (df self)" and "set BORROWER_COLS \<subseteq> fst ` set (columns (df self))"
  shows "\<exists>rows. structure_summary self = Inr rows
           \<and> map column rows = BORROWER_COLS
           \<and> (\<forall>r \<in> set rows.
                (0 < n_rows (df self) \<longrightarrow>
                   missing_pct r = Some (real (n_missing r) / real (n_rows (df self))))
              \<and> (n_rows (df self) = 0 \<longrightarrow> missing_pct r = None \<and> n_missing r = 0))"
proof -
  have ex: "\<forall>c \<in> set BORROWER_COLS. \<exists>r. structure_row self c = Inr r"
  proof
    fix c assume "c \<in> set BORROWER_COLS"
    with assms(2) obtain s where "getitem (df self) c = Inr s"
      using getitem_present by blast
    then show "\<exists>r. structure_row self c = Inr r" by (simp add: structure_row_def)
  qed
  have "\<exists>rows. list_all2 (\<lambda>c r. structure_row self c = Inr r) BORROWER_COLS rows"
    by (rule list_all2_choose) (rule ex)
  then obtain rows where rows: "list_all2 (\<lambda>c r. structure_row self c = Inr r) BORROWER_COLS rows" ..
  then have run: "structure_summary self = Inr rows"
    unfolding structure_summary_def structure_loop_Inr by simp
  have cols: "map column rows = BORROWER_COLS"
    using rows by (intro list_all2_map_eq) (auto elim!: list_all2_mono dest: structure_row_column)
  have pct: "(0 < n_rows (df self) \<longrightarrow>
                 missing_pct r = Some (real (n_missing r) / real (n_rows (df self))))
              \<and> (n_rows (df self) = 0 \<longrightarrow> missing_pct r = None \<and> n_missing r = 0)"
    if "r \<in> set rows" for r
  proof -
    from list_all2_right_mem [OF rows that] obtain c where "structure_row self c = Inr r"
      by blast
    then show ?thesis by (rule structure_row_pct [OF assms(1)])
  qed
  show ?thesis using run cols pct by blast
qed

theorem structure_summary_rows_witness:
  "wf_df (df borrower_example) \<and> set BORROWER_COLS \<subseteq> fst ` set (columns (df borrower_example))
   \<and> (\<exists>rows. structure_summary borrower_example = Inr rows
           \<and> map column rows = BORROWER_COLS
           \<and> (\<forall>r \<in> set rows.
                (0 < n_rows (df borrower_example) \<longrightarrow>
                   missing_pct r = Some (real (n_missing r) / real (n_rows (df borrower_example))))
              \<and> (n_rows (df borrower_example) = 0 \<longrightarrow> missing_pct r = None \<and> n_missing r = 0)))"
  using structure_summary_rows [OF borrower_example_wf borrower_example_cols]
    borrower_example_wf borrower_example_cols by blast

section \<open>Counting values\<close>

lemma head_length: "0 \<le> k \<Longrightarrow> length (head k xs) \<le> nat k"
  by (simp add: head_def)

lemma head_take: "\<exists>n. head k xs = take n xs"
  unfolding head_def by (cases "0 \<le> k") auto

lemma head_prefix: "prefix (head k xs) xs"
  using head_take [of k xs] by (auto simp: take_is_prefix)

lemma sorted_wrt_head: "sorted_wrt P xs \<Longrightarrow> sorted_wrt P (head k xs)"
  using head_take [of k xs] by (auto simp: sorted_wrt_take)

lemma value_counts_sorted: "sorted_wrt (\<lambda>a b. snd b \<le> snd a) (value_counts d s)"
proof -
  have "sorted (map (\<lambda>(v, n). - int n) (value_counts d s))"
    unfolding value_counts_def Let_def by (rule sorted_sort_key)
  then show ?thesis
    by (simp add: sorted_map case_prod_unfold) 
qed

lemma set_unique [simp]: "set (unique xs) = set xs"
  by (simp add: unique_def)

lemma distinct_unique [simp]: "distinct (unique xs)"
  by (simp add: unique_def)

lemma count_list_filter_eq:
  "count_list (filter P xs) v = (if P v then count_list xs v else 0)"
  by (induction xs) auto

lemma value_counts_set:
  "set (value_counts True s) =
     (\<lambda>v. (v, count_list (cells s) v)) ` (set (cells s) - {None})"
  unfolding value_counts_def Let_def
  by (auto simp: count_list_filter_eq)

lemma value_counts_keys:
  "fst ` set (value_counts True s) = set (cells s) - {None}"
  unfolding value_counts_set by (simp add: image_image)

lemma value_counts_distinct: "distinct (map fst (value_counts d s))"
  unfolding value_counts_def Let_def
  by (simp add: distinct_map inj_on_def)

lemma count_list_pos: "x \<in> set xs \<Longrightarrow> 0 < count_list xs x"
  by (induction xs) auto

lemma value_counts_count:
  "(v, n) \<in> set (value_counts True s) \<Longrightarrow> v \<noteq> None \<and> n = count_list (cells s) v \<and> 0 < n"
  unfolding value_counts_set
  by (auto simp: count_list_pos)

lemma categorical_freqs_Inr:
  assumes "categorical_freqs self k = Inr m"
  shows "\<exists>s1 s2 s3. getitem (df self) ''home_ownership'' = Inr s1
           \<and> getitem (df self) ''addr_state'' = Inr s2
           \<and> getitem (df self) ''purpose'' = Inr s3
           \<and> m = [(''home_ownership'', head k (value_counts True s1)),
                  (''addr_state'', head k (value_counts True s2)),
                  (''purpose'', head k (value_counts True s3))]"
  using assms
  by (auto simp: categorical_freqs_def list_of_dict_variables_def dict_setitem_def
           split: sum.splits)

lemma categorical_freqs_ok:
  assumes "getitem (df self) ''home_ownership'' = Inr s1"
    and "getitem (df self) ''addr_state'' = Inr s2"
    and "getitem (df self) ''purpose'' = Inr s3"
  shows "categorical_freqs self k =
           Inr [(''home_ownership'', head k (value_counts True s1)),
                (''addr_state'', head k (value_counts True s2)),
                (''purpose'', head k (value_counts True s3))]"
  using assms
  by (simp add: categorical_freqs_def list_of_dict_variables_def dict_setitem_def)

lemma borrower_example_lookup:
  "getitem (df borrower_example) ''home_ownership'' = Inr (StrCol [Some ''RENT'', Some ''OWN'', None, Some ''RENT''])"
  "getitem (df borrower_example) ''addr_state'' = Inr (StrCol [Some ''RENT'', Some ''OWN'', None, Some ''RENT''])"
  "getitem (df borrower_example) ''purpose'' = Inr (StrCol [Some ''RENT'', Some ''OWN'', None, Some ''RENT''])"
  "getitem (df borrower_example) ''annual_inc'' = Inr (StrCol [Some ''RENT'', Some ''OWN'', None, Some ''RENT''])"
  "getitem (df borrower_example) ''annual_inc_joint'' = Inr (StrCol [Some ''RENT'', Some ''OWN'', None, Some ''RENT''])"
  "getitem (df borrower_example) ''loan_status'' = Inr (IntCol [1, 0, 1, 0])"
  by (simp_all add: getitem_def borrower_example_def BORROWER_COLS_def)

lemma borrower_example_target: "target_col borrower_example = ''loan_status''"
  by (simp add: borrower_example_def)

lemma borrower_example_counts: "value_counts True (StrCol [Some ''RENT'', Some ''OWN'', None, Some ''RENT''])
   = [(Some (VStr ''RENT''), 2), (Some (VStr ''OWN''), 1)]"
  by (simp add: value_counts_def unique_def)

lemma borrower_example_freqs: "categorical_freqs borrower_example 10 =
   Inr [(''home_ownership'', [(Some (VStr ''RENT''), 2), (Some (VStr ''OWN''), 1)]),
        (''addr_state'', [(Some (VStr ''RENT''), 2), (Some (VStr ''OWN''), 1)]),
        (''purpose'', [(Some (VStr ''RENT''), 2), (Some (VStr ''OWN''), 1)])]"
  by (simp add: categorical_freqs_ok [OF borrower_example_lookup(1-3)] borrower_example_counts head_def)

lemma borrower_example_rates: "default_rate_by_category borrower_example ''purpose'' =
    Inr [(VStr ''OWN'', Some 0), (VStr ''RENT'', Some (1 / 2))]"
  by (simp add: default_rate_by_category_def borrower_example_lookup borrower_example_target groupby_mean_def
        group_values_def nanmean_def)

lemma borrower_example_income: "income_summary borrower_example =
   Inr [(''annual_inc'', ObjectStats 3 2 (Some (VStr ''RENT'')) (Some 2)),
        (''annual_inc_joint'', ObjectStats 3 2 (Some (VStr ''RENT'')) (Some 2))]"
  by (simp add: income_summary_def borrower_example_lookup describe_T_def select_dtypes_number_def
       is_numeric_def describe_column_def describe_object_def borrower_example_counts)

section \<open>Frequencies of the categorical columns\<close>

text \<open>
  Claim C4. On a frame that has \<^verbatim>\<open>home_ownership\<close>, \<^verbatim>\<open>addr_state\<close> and \<^verbatim>\<open>purpose\<close>, and for
  a non-negative \<open>k\<close>, \<^verbatim>\<open>categorical_freqs(max_levels=k)\<close> returns one entry list per column,
  each with at most \<open>k\<close> (value, count) pairs in descending order of count.
\<close>

theorem categorical_freqs_top_levels:
  assumes "set list_of_dict_variables \<subseteq> fst ` set (columns (df self))" and "0 \<le> k"
  shows "\<exists>m. categorical_freqs self k = Inr m
           \<and> map fst m = list_of_dict_variables
           \<and> (\<forall>(var, entries) \<in> set m.
                 length entries \<le> nat k \<and> sorted_wrt (\<lambda>a b. snd b \<le> snd a) entries)"
proof -
  from assms(1) obtain s1 s2 s3 where s:
    "getitem (df self) ''home_ownership'' = Inr s1"
    "getitem (df self) ''addr_state'' = Inr s2"
    "getitem (df self) ''purpose'' = Inr s3"
    using getitem_present [of _ "df self"] unfolding list_of_dict_variables_def
    by (metis insert_subset list.simps(15))
  show ?thesis
    unfolding categorical_freqs_ok [OF s]
    by (simp add: list_of_dict_variables_def head_length [OF assms(2)] sorted_wrt_head
          value_counts_sorted)
qed

theorem categorical_freqs_top_levels_witness:
  "set list_of_dict_variables \<subseteq> fst ` set (columns (df borrower_example)) \<and> (0::int) \<le> 10
   \<and> (\<exists>m. categorical_freqs borrower_example 10 = Inr m
           \<and> map fst m = list_of_dict_variables
           \<and> (\<forall>(var, entries) \<in> set m.
                 length entries \<le> nat 10 \<and> sorted_wrt (\<lambda>a b. snd b \<le> snd a) entries))"
proof -
  have h: "set list_of_dict_variables \<subseteq> fst ` set (columns (df borrower_example))"
    using borrower_example_cols by (auto simp: list_of_dict_variables_def BORROWER_COLS_def)
  show ?thesis using categorical_freqs_top_levels [OF h, of 10] h by simp
qed

text \<open>
  Claim C10. \<^verbatim>\<open>categorical_freqs\<close> counts only values that are not missing: the entries of a
  column are a prefix of its value counts, whose keys are exactly the distinct values of the
  column that are not missing, each once, with the number of rows holding it; the missing
  value is never a level, however many rows lack a value.
\<close>

theorem categorical_freqs_no_missing_level:
  assumes "categorical_freqs self k = Inr m" and "(var, entries) \<in> set m"
  shows "\<exists>s. getitem (df self) var = Inr s
           \<and> prefix entries (value_counts True s)
           \<and> fst ` set (value_counts True s) = set (cells s) - {None}
           \<and> distinct (map fst (value_counts True s))
           \<and> None \<notin> fst ` set entries
           \<and> (\<forall>(v, n) \<in> set entries. v \<in> set (cells s) \<and> n = count_list (cells s) v)"
proof -
  from categorical_freqs_Inr [OF assms(1)] assms(2)
  obtain s where s: "getitem (df self) var = Inr s" and e: "entries = head k (value_counts True s)"
    by auto
  have sub: "set entries \<subseteq> set (value_counts True s)"
    unfolding e using head_prefix [of k "value_counts True s"] by (rule set_mono_prefix)
  have "None \<notin> fst ` set entries"
    using sub value_counts_keys [of s] by auto
  moreover have "\<forall>(v, n) \<in> set entries. v \<in> set (cells s) \<and> n = count_list (cells s) v"
    using sub value_counts_count [of _ _ s] value_counts_keys [of s] by fastforce
  ultimately show ?thesis
    using s e head_prefix [of k "value_counts True s"] value_counts_keys [of s]
      value_counts_distinct [of True s] by blast
qed

theorem categorical_freqs_no_missing_level_witness:
  "categorical_freqs borrower_example 10 =
     Inr [(''home_ownership'', [(Some (VStr ''RENT''), 2), (Some (VStr ''OWN''), 1)]),
          (''addr_state'', [(Some (VStr ''RENT''), 2), (Some (VStr ''OWN''), 1)]),
          (''purpose'', [(Some (VStr ''RENT''), 2), (Some (VStr ''OWN''), 1)])]
   \<and> (\<exists>s. getitem (df borrower_example) ''purpose'' = Inr s
           \<and> prefix [(Some (VStr ''RENT''), 2), (Some (VStr ''OWN''), 1)] (value_counts True s)
           \<and> fst ` set (value_counts True s) = set (cells s) - {None}
           \<and> distinct (map fst (value_counts True s))
           \<and> None \<notin> fst ` set [(Some (VStr ''RENT''), 2::nat), (Some (VStr ''OWN''), 1)]
           \<and> (\<forall>(v, n) \<in> set [(Some (VStr ''RENT''), 2), (Some (VStr ''OWN''), 1)].
                 v \<in> set (cells s) \<and> n = count_list (cells s) v))"
  using categorical_freqs_no_missing_level [OF borrower_example_freqs,
      of "''purpose''" "[(Some (VStr ''RENT''), 2), (Some (VStr ''OWN''), 1)]"]
    borrower_example_freqs by simp

section \<open>Default rate per category\<close>

lemma set_dropna [simp]: "set (dropna xs) = {x. Some x \<in> set xs}"
  by (induction xs rule: dropna.induct) auto

lemma dropna_map_Some [simp]: "dropna (map Some xs) = xs"
  by (induction xs) auto

lemma length_dropna_le: "length (dropna xs) \<le> length xs"
  by (induction xs rule: dropna.induct) auto

lemma Some_in_map_option:
  "Some v \<in> map_option f ` S \<longleftrightarrow> (\<exists>x. Some x \<in> S \<and> v = f x)"
proof
  assume "Some v \<in> map_option f ` S"
  then obtain c where "c \<in> S" "Some v = map_option f c" by auto
  then show "\<exists>x. Some x \<in> S \<and> v = f x" by (cases c) auto
next
  assume "\<exists>x. Some x \<in> S \<and> v = f x"
  then obtain x where "Some x \<in> S" "v = f x" by auto
  then show "Some v \<in> map_option f ` S" by (auto simp: image_iff intro!: bexI [of _ "Some x"])
qed

lemma group_keys_set: "set (group_keys s) = {v. Some v \<in> set (cells s)}"
  by (cases s) (auto simp: Some_in_map_option)

lemma group_keys_distinct: "distinct (group_keys s)"
  by (cases s) (simp_all add: distinct_map inj_on_def)

lemma zip_conv_nth:
  "length ks = length vs \<Longrightarrow> zip ks vs = map (\<lambda>i. (ks ! i, vs ! i)) [0..<length ks]"
  by (rule nth_equalityI) auto

lemma group_values_conv_nth:
  assumes "length ks = length vs"
  shows "group_values ks vs k = map (\<lambda>i. vs ! i) (filter (\<lambda>i. ks ! i = k) [0..<length ks])"
  unfolding group_values_def zip_conv_nth [OF assms]
  by (simp add: filter_map comp_def)

lemma filter_upt_set: "set (filter P [0..<n]) = {i. i < n \<and> P i}"
  by auto

lemma nanmean_Some:
  "nanmean (map Some ys) = (if ys = [] then None else Some (sum_list ys / real (length ys)))"
  by (simp add: nanmean_def)

lemma group_mean_rows:
  assumes len: "length ks = length tv"
  shows "nanmean (group_values ks (map Some tv) k) =
           (if {i. i < length ks \<and> ks ! i = k} = {} then None
            else Some ((\<Sum>i\<in>{i. i < length ks \<and> ks ! i = k}. tv ! i)
                        / real (card {i. i < length ks \<and> ks ! i = k})))"
proof -
  define rows where "rows = {i. i < length ks \<and> ks ! i = k}"
  let ?idx = "filter (\<lambda>i. ks ! i = k) [0..<length ks]"
  have gv: "group_values ks (map Some tv) k = map Some (map (\<lambda>i. tv ! i) ?idx)"
    using len by (simp add: group_values_conv_nth comp_def)
  have d: "distinct ?idx" by simp
  have s: "set ?idx = rows" unfolding rows_def by auto
  have sum: "sum_list (map (\<lambda>i. tv ! i) ?idx) = (\<Sum>i\<in>rows. tv ! i)"
    using sum_list_distinct_conv_sum_set [OF d, of "\<lambda>i. tv ! i"] s by simp
  have card: "length ?idx = card rows"
    using distinct_card [OF d] s by simp
  have emp: "?idx = [] \<longleftrightarrow> rows = {}"
    using s by (metis set_empty)
  show ?thesis
    unfolding gv nanmean_Some rows_def [symmetric] using sum card emp by simp
qed

lemma mean_unit_interval:
  assumes "finite rows" "rows \<noteq> {}" "\<forall>i \<in> rows. tv ! i = (0::real) \<or> tv ! i = 1"
  shows "0 \<le> (\<Sum>i\<in>rows. tv ! i) / real (card rows) \<and> (\<Sum>i\<in>rows. tv ! i) / real (card rows) \<le> 1"
proof -
  have lo: "0 \<le> (\<Sum>i\<in>rows. tv ! i)"
    by (rule sum_nonneg) (use assms(3) in auto)
  have "(\<Sum>i\<in>rows. tv ! i) \<le> (\<Sum>i\<in>rows. 1)"
    by (rule sum_mono) (use assms(3) in auto)
  then have hi: "(\<Sum>i\<in>rows. tv ! i) \<le> real (card rows)" by simp
  have pos: "0 < real (card rows)" using assms(1,2) by (simp add: card_gt_0_iff)
  show ?thesis using lo hi pos by (simp add: divide_le_eq)
qed

text \<open>
  Claim C3. On a frame that has the column \<open>col\<close> and a numeric target column whose values
  are all 0 or 1, \<^verbatim>\<open>default_rate_by_category(col)\<close> returns a mapping whose keys are, each
  once, the distinct values of \<open>col\<close> that are not missing; the value at a key is the mean of
  the target over the rows holding that key, and lies between 0 and 1.
\<close>

theorem default_rate_by_category_rates:
  assumes wf: "wf_df (df self)"
    and col: "getitem (df self) col = Inr key_col"
    and target: "getitem (df self) (target_col self) = Inr target"
    and numeric: "numeric_values target = Some (map Some tv)"
    and binary: "set tv \<subseteq> {0, 1}"
  shows "\<exists>m. default_rate_by_category self col = Inr m
           \<and> distinct (map fst m)
           \<and> set (map fst m) = {v. Some v \<in> set (cells key_col)}
           \<and> (\<forall>(k, rate) \<in> set m.
                 \<exists>x. rate = Some x
                   \<and> x = (\<Sum>i \<in> {i. i < n_rows (df self) \<and> cells key_col ! i = Some k}. tv ! i)
                         / real (card {i. i < n_rows (df self) \<and> cells key_col ! i = Some k})
                   \<and> 0 \<le> x \<and> x \<le> 1)"
proof -
  let ?ks = "cells key_col"
  let ?m = "map (\<lambda>k. (k, nanmean (group_values ?ks (map Some tv) (Some k)))) (group_keys key_col)"
  have run: "default_rate_by_category self col = Inr ?m"
    by (simp add: default_rate_by_category_def col target groupby_mean_def numeric)
  have lk: "length ?ks = n_rows (df self)" by (rule wf_df_length [OF wf col])
  have "length (cells target) = n_rows (df self)" by (rule wf_df_length [OF wf target])
  moreover have "length (cells target) = length tv"
    using numeric by (cases target) (auto dest: arg_cong [where f = length])
  ultimately have len: "length ?ks = length tv" using lk by simp
  have rates: "\<exists>x. rate = Some x
      \<and> x = (\<Sum>i \<in> {i. i < n_rows (df self) \<and> ?ks ! i = Some k}. tv ! i)
            / real (card {i. i < n_rows (df self) \<and> ?ks ! i = Some k})
      \<and> 0 \<le> x \<and> x \<le> 1"
    if "(k, rate) \<in> set ?m" for k rate
  proof -
    let ?rows = "{i. i < length ?ks \<and> ?ks ! i = Some k}"
    from that have k: "k \<in> set (group_keys key_col)"
      and r: "rate = nanmean (group_values ?ks (map Some tv) (Some k))" by auto
    from k have "Some k \<in> set ?ks" by (simp add: group_keys_set)
    then have ne: "?rows \<noteq> {}" by (auto simp: in_set_conv_nth)
    have bin: "\<forall>i \<in> ?rows. tv ! i = 0 \<or> tv ! i = 1"
      using binary len by (auto dest!: nth_mem [of _ tv])
    have fin: "finite ?rows" by simp
    show ?thesis
      using mean_unit_interval [OF fin ne bin] ne
      unfolding r group_mean_rows [OF len] lk by simp
  qed
  show ?thesis
    using run rates group_keys_set [of key_col] group_keys_distinct [of key_col]
    by (intro exI [of _ ?m]) (auto simp: comp_def)
qed

theorem default_rate_by_category_rates_witness:
  "wf_df (df borrower_example)
   \<and> getitem (df borrower_example) ''purpose''
         = Inr (StrCol [Some ''RENT'', Some ''OWN'', None, Some ''RENT''])
   \<and> getitem (df borrower_example) (target_col borrower_example) = Inr (IntCol [1, 0, 1, 0])
   \<and> numeric_values (IntCol [1, 0, 1, 0]) = Some (map Some [1, 0, 1, 0])
   \<and> set [1, 0, 1, 0 :: real] \<subseteq> {0, 1}
   \<and> (\<exists>m. default_rate_by_category borrower_example ''purpose'' = Inr m
           \<and> distinct (map fst m)
           \<and> set (map fst m)
               = {v. Some v \<in> set (cells (StrCol [Some ''RENT'', Some ''OWN'', None, Some ''RENT'']))}
           \<and> (\<forall>(k, rate) \<in> set m.
                 \<exists>x. rate = Some x
                   \<and> x = (\<Sum>i \<in> {i. i < n_rows (df borrower_example)
                            \<and> cells (StrCol [Some ''RENT'', Some ''OWN'', None, Some ''RENT'']) ! i
                                = Some k}. [1, 0, 1, 0] ! i)
                         / real (card {i. i < n_rows (df borrower_example)
                            \<and> cells (StrCol [Some ''RENT'', Some ''OWN'', None, Some ''RENT'']) ! i
                                = Some k})
                   \<and> 0 \<le> x \<and> x \<le> 1))"
proof -
  have t: "getitem (df borrower_example) (target_col borrower_example) = Inr (IntCol [1, 0, 1, 0])"
    by (simp add: borrower_example_target borrower_example_lookup)
  have n: "numeric_values (IntCol [1, 0, 1, 0]) = Some (map Some [1, 0, 1, 0])" by simp
  have b: "set [1, 0, 1, 0 :: real] \<subseteq> {0, 1}" by simp
  show ?thesis
    using default_rate_by_category_rates [OF borrower_example_wf borrower_example_lookup(3) t n b]
      borrower_example_wf borrower_example_lookup(3) t n b
    by blast
qed

section \<open>The borrower pipeline\<close>

lemma borrower_example_structure:
  "structure_summary borrower_example =
     Inr (map (\<lambda>c. \<lparr> column = c, dtype = Object, n_missing = 1, missing_pct = Some (1 / 4),
                      n_unique = 2 \<rparr>) BORROWER_COLS)"
  by (simp add: structure_summary_def BORROWER_COLS_def structure_row_def getitem_def
        borrower_example_def isna_def bool_sum_def bool_mean_def nunique_def)

lemma borrower_example_rates_home:
  "default_rate_by_category borrower_example ''home_ownership'' =
    Inr [(VStr ''OWN'', Some 0), (VStr ''RENT'', Some (1 / 2))]"
  by (simp add: default_rate_by_category_def borrower_example_lookup borrower_example_target
        groupby_mean_def group_values_def nanmean_def)

text \<open>
  Claim C5. When the five borrower steps succeed, \<^verbatim>\<open>run_borrower_eda_pipeline\<close> returns a
  mapping with exactly the keys \<^verbatim>\<open>structure\<close>, \<^verbatim>\<open>income\<close>, \<^verbatim>\<open>freqs\<close>,
  \<^verbatim>\<open>default_by_home_ownership\<close> and \<^verbatim>\<open>default_by_purpose\<close>, in this order, each with the
  result of its producer.
\<close>

theorem run_borrower_eda_pipeline_keys:
  assumes "structure_summary eda = Inr a" and "income_summary eda = Inr b"
    and "categorical_freqs eda 10 = Inr c"
    and "default_rate_by_category eda ''home_ownership'' = Inr d"
    and "default_rate_by_category eda ''purpose'' = Inr e"
  shows "run_borrower_eda_pipeline eda =
           Inr [(''structure'', Structure a), (''income'', Income b), (''freqs'', Freqs c),
                (''default_by_home_ownership'', DefaultRates d),
                (''default_by_purpose'', DefaultRates e)]"
  using assms
  by (simp add: run_borrower_eda_pipeline_def borrower_eda_steps_def dict_setitem_def)

theorem run_borrower_eda_pipeline_keys_witness:
  "run_borrower_eda_pipeline borrower_example =
     Inr [(''structure'',
             Structure (map (\<lambda>c. \<lparr> column = c, dtype = Object, n_missing = 1,
                                     missing_pct = Some (1 / 4), n_unique = 2 \<rparr>) BORROWER_COLS)),
          (''income'',
             Income [(''annual_inc'', ObjectStats 3 2 (Some (VStr ''RENT'')) (Some 2)),
                     (''annual_inc_joint'', ObjectStats 3 2 (Some (VStr ''RENT'')) (Some 2))]),
          (''freqs'',
             Freqs [(''home_ownership'', [(Some (VStr ''RENT''), 2), (Some (VStr ''OWN''), 1)]),
                    (''addr_state'', [(Some (VStr ''RENT''), 2), (Some (VStr ''OWN''), 1)]),
                    (''purpose'', [(Some (VStr ''RENT''), 2), (Some (VStr ''OWN''), 1)])]),
          (''default_by_home_ownership'',
             DefaultRates [(VStr ''OWN'', Some 0), (VStr ''RENT'', Some (1 / 2))]),
          (''default_by_purpose'',
             DefaultRates [(VStr ''OWN'', Some 0), (VStr ''RENT'', Some (1 / 2))])]"
  by (rule run_borrower_eda_pipeline_keys [OF borrower_example_structure borrower_example_income
        borrower_example_freqs borrower_example_rates_home borrower_example_rates])

section \<open>The credit structure summary\<close>

lemma CREDIT_NUMERIC_COLS_length: "length CREDIT_NUMERIC_COLS = 29"
  by (simp add: CREDIT_NUMERIC_COLS_def)

lemma is_numeric_values: "is_numeric s \<longleftrightarrow> numeric_values s \<noteq> None"
  by (cases s) (simp_all add: is_numeric_def)

lemma numeric_dtype_check:
  assumes "getitem d c = Inr s"
  shows "dtypes s \<in> set (map (\<lambda>(name, c). dtypes c) (select_dtypes_number (columns d)))
           \<longleftrightarrow> is_numeric s"
proof
  assume "dtypes s \<in> set (map (\<lambda>(name, c). dtypes c) (select_dtypes_number (columns d)))"
  then obtain name s' where "is_numeric s'" "dtypes s' = dtypes s"
    by (auto simp: select_dtypes_number_def)
  then show "is_numeric s" by (simp add: is_numeric_def)
next
  assume n: "is_numeric s"
  from assms have "(c, s) \<in> set (columns d)"
    by (auto simp: getitem_def split: option.splits dest: map_of_SomeD)
  with n have "(c, s) \<in> set (select_dtypes_number (columns d))"
    by (simp add: select_dtypes_number_def)
  then show "dtypes s \<in> set (map (\<lambda>(name, c). dtypes c) (select_dtypes_number (columns d)))"
    by force
qed

lemma credit_structure_row_Inr:
  "credit_structure_row self c = Inr r \<longleftrightarrow>
     (\<exists>s. getitem (df self) c = Inr s
        \<and> r = \<lparr> column = c, dtype = dtypes s, n_missing = bool_sum (isna s),
                missing_pct = bool_mean (isna s),
                mean = (case numeric_values s of None \<Rightarrow> None | Some xs \<Rightarrow> nanmean xs),
                std = (case numeric_values s of None \<Rightarrow> None | Some xs \<Rightarrow> nanstd xs) \<rparr>)"
proof (cases "getitem (df self) c")
  case (Inl e)
  then show ?thesis by (simp add: credit_structure_row_def)
next
  case (Inr s)
  show ?thesis
    unfolding credit_structure_row_def Inr sum.case numeric_dtype_check [OF Inr] is_numeric_values
    by (cases "numeric_values s") (auto simp: series_mean_def series_std_def)
qed

lemma credit_structure_row_Inl:
  "credit_structure_row self c = Inl e \<longleftrightarrow> getitem (df self) c = Inl e"
proof (cases "getitem (df self) c")
  case (Inl e')
  then show ?thesis by (simp add: credit_structure_row_def)
next
  case (Inr s)
  show ?thesis
    unfolding credit_structure_row_def Inr sum.case numeric_dtype_check [OF Inr] is_numeric_values
    by (cases "numeric_values s") (auto simp: series_mean_def series_std_def)
qed

lemma credit_structure_loop_Inr:
  "credit_structure_loop self acc cs = Inr out \<longleftrightarrow>
     (\<exists>rows. out = acc @ rows \<and> list_all2 (\<lambda>c r. credit_structure_row self c = Inr r) cs rows)"
proof (induction cs arbitrary: acc)
  case Nil
  then show ?case by auto
next
  case (Cons c cs)
  show ?case
  proof (cases "credit_structure_row self c")
    case (Inl e)
    then show ?thesis by (auto simp: list_all2_Cons1)
  next
    case (Inr r)
    then show ?thesis by (auto simp: Cons.IH list_all2_Cons1)
  qed
qed

lemma credit_structure_summary_ok:
  assumes "set CREDIT_NUMERIC_COLS \<subseteq> fst ` set (columns (df self))"
  shows "\<exists>rows. credit_structure_summary self = Inr rows
           \<and> list_all2 (\<lambda>c r. credit_structure_row self c = Inr r) CREDIT_NUMERIC_COLS rows"
proof -
  have ex: "\<forall>c \<in> set CREDIT_NUMERIC_COLS. \<exists>r. credit_structure_row self c = Inr r"
  proof
    fix c assume "c \<in> set CREDIT_NUMERIC_COLS"
    with assms obtain s where "getitem (df self) c = Inr s"
      using getitem_present by blast
    then show "\<exists>r. credit_structure_row self c = Inr r"
      unfolding credit_structure_row_Inr by blast
  qed
  have "\<exists>rows. list_all2 (\<lambda>c r. credit_structure_row self c = Inr r) CREDIT_NUMERIC_COLS rows"
    by (rule list_all2_choose) (rule ex)
  then obtain rows
    where rows: "list_all2 (\<lambda>c r. credit_structure_row self c = Inr r) CREDIT_NUMERIC_COLS rows" ..
  then have "credit_structure_summary self = Inr rows"
    unfolding credit_structure_summary_def credit_structure_loop_Inr by simp
  with rows show ?thesis by blast
qed

text \<open>
  Claim C7, as amended. The credit universe has 29 columns, not 28. On a frame that has all
  of them, \<^verbatim>\<open>credit_structure_summary\<close> returns one row per universe column, in the order of
  \<^verbatim>\<open>CREDIT_NUMERIC_COLS\<close>; a row of a numeric column carries the column's mean and standard
  deviation, a row of any other column carries the not-a-number sentinel for both.
\<close>

theorem credit_structure_summary_rows:
  assumes "set CREDIT_NUMERIC_COLS \<subseteq> fst ` set (columns (df self))"
  shows "\<exists>rows. credit_structure_summary self = Inr rows
           \<and> map column rows = CREDIT_NUMERIC_COLS
           \<and> length rows = 29
           \<and> (\<forall>r \<in> set rows. \<exists>s. getitem (df self) (column r) = Inr s
                 \<and> dtype r = dtypes s
                 \<and> (is_numeric s \<longrightarrow>
                      (\<exists>xs. numeric_values s = Some xs \<and> mean r = nanmean xs \<and> std r = nanstd xs))
                 \<and> (\<not> is_numeric s \<longrightarrow> mean r = None \<and> std r = None))"
proof -
  from credit_structure_summary_ok [OF assms] obtain rows
    where run: "credit_structure_summary self = Inr rows"
      and rows: "list_all2 (\<lambda>c r. credit_structure_row self c = Inr r) CREDIT_NUMERIC_COLS rows"
    by blast
  have cols: "map column rows = CREDIT_NUMERIC_COLS"
    using rows by (intro list_all2_map_eq) (auto elim!: list_all2_mono simp: credit_structure_row_Inr)
  then have len: "length rows = 29"
    using CREDIT_NUMERIC_COLS_length by (metis length_map)
  have each: "\<exists>s. getitem (df self) (column r) = Inr s
                 \<and> dtype r = dtypes s
                 \<and> (is_numeric s \<longrightarrow>
                      (\<exists>xs. numeric_values s = Some xs \<and> mean r = nanmean xs \<and> std r = nanstd xs))
                 \<and> (\<not> is_numeric s \<longrightarrow> mean r = None \<and> std r = None)"
    if "r \<in> set rows" for r
  proof -
    from list_all2_right_mem [OF rows that] obtain c where "credit_structure_row self c = Inr r"
      by blast
    then show ?thesis
      unfolding credit_structure_row_Inr by (auto simp: is_numeric_values)
  qed
  show ?thesis using run cols len each by blast
qed

lemma credit_example_cols: "set CREDIT_NUMERIC_COLS \<subseteq> fst ` set (columns (df credit_example))"
  by (auto simp add: credit_example_def image_image)

theorem credit_structure_summary_rows_witness:
  "set CREDIT_NUMERIC_COLS \<subseteq> fst ` set (columns (df credit_example))
   \<and> (\<exists>rows. credit_structure_summary credit_example = Inr rows
           \<and> map column rows = CREDIT_NUMERIC_COLS
           \<and> length rows = 29
           \<and> (\<forall>r \<in> set rows. \<exists>s. getitem (df credit_example) (column r) = Inr s
                 \<and> dtype r = dtypes s
                 \<and> (is_numeric s \<longrightarrow>
                      (\<exists>xs. numeric_values s = Some xs \<and> mean r = nanmean xs \<and> std r = nanstd xs))
                 \<and> (\<not> is_numeric s \<longrightarrow> mean r = None \<and> std r = None)))"
  using credit_structure_summary_rows [OF credit_example_cols] credit_example_cols by blast

theorem credit_structure_summary_counterexample:
  "set CREDIT_NUMERIC_COLS \<subseteq> fst ` set (columns (df credit_example))
   \<and> \<not> isl (credit_structure_summary credit_example)
   \<and> length (projr (credit_structure_summary credit_example)) = 29
   \<and> length CREDIT_NUMERIC_COLS \<noteq> 28"
proof -
  from credit_structure_summary_ok [OF credit_example_cols] obtain rows
    where run: "credit_structure_summary credit_example = Inr rows"
      and rows: "list_all2 (\<lambda>c r. credit_structure_row credit_example c = Inr r)
                   CREDIT_NUMERIC_COLS rows"
    by blast
  have "length rows = 29"
    using list_all2_lengthD [OF rows] CREDIT_NUMERIC_COLS_length by simp
  then show ?thesis
    using run credit_example_cols CREDIT_NUMERIC_COLS_length by simp
qed

section \<open>Correlation with the target\<close>

lemma pearson_range: "pearson ps = None \<or> (\<exists>x. pearson ps = Some x \<and> - 1 \<le> x \<and> x \<le> 1)"
  unfolding pearson_def Let_def by simp

lemma series_corr_Inr:
  "series_corr s t = Inr r \<longleftrightarrow>
     (\<exists>xs ys. numeric_values s = Some xs \<and> numeric_values t = Some ys
        \<and> r = pearson (pairwise_complete xs ys))"
  unfolding series_corr_def by (auto split: option.splits)

lemma series_corr_Inl:
  "series_corr s t = Inl e \<longleftrightarrow> e = TypeError \<and> (\<not> is_numeric s \<or> \<not> is_numeric t)"
  unfolding series_corr_def is_numeric_values by (auto split: option.splits)

lemma corr_loop_Inr:
  "corr_loop self acc cs = Inr out \<longleftrightarrow>
     (\<exists>rs. out = acc @ rs
        \<and> list_all2 (\<lambda>c r. \<exists>s t. getitem (df self) c = Inr s
                        \<and> getitem (df self) (target_col self) = Inr t
                        \<and> series_corr s t = Inr r) cs rs)"
proof (induction cs arbitrary: acc)
  case Nil
  then show ?case by auto
next
  case (Cons c cs)
  show ?case
    by (auto simp: Cons.IH list_all2_Cons1 split: sum.splits)
qed

lemma correlation_with_default_ok:
  assumes cols: "set CREDIT_NUMERIC_COLS \<subseteq> fst ` set (columns (df self))"
    and numeric: "\<forall>c \<in> set CREDIT_NUMERIC_COLS. \<forall>s. getitem (df self) c = Inr s \<longrightarrow> is_numeric s"
    and target: "getitem (df self) (target_col self) = Inr t" "is_numeric t"
  shows "\<exists>m. correlation_with_default self = Inr m
           \<and> map fst m = CREDIT_NUMERIC_COLS
           \<and> length m = 29
           \<and> (\<forall>(c, r) \<in> set m.
                 (\<exists>s. getitem (df self) c = Inr s \<and> series_corr s t = Inr r)
               \<and> (r = None \<or> (\<exists>x. r = Some x \<and> - 1 \<le> x \<and> x \<le> 1)))"
proof -
  let ?P = "\<lambda>c r. \<exists>s t. getitem (df self) c = Inr s
                        \<and> getitem (df self) (target_col self) = Inr t
                        \<and> series_corr s t = Inr r"
  have ex: "\<forall>c \<in> set CREDIT_NUMERIC_COLS. \<exists>r. ?P c r"
  proof
    fix c assume c: "c \<in> set CREDIT_NUMERIC_COLS"
    with cols obtain s where s: "getitem (df self) c = Inr s"
      using getitem_present by blast
    with numeric c have "is_numeric s" by blast
    then obtain r where "series_corr s t = Inr r"
      using target(2) unfolding series_corr_Inr is_numeric_values by auto
    with s target(1) show "\<exists>r. ?P c r" by blast
  qed
  have "\<exists>rs. list_all2 ?P CREDIT_NUMERIC_COLS rs"
    by (rule list_all2_choose) (rule ex)
  then obtain rs where rs: "list_all2 ?P CREDIT_NUMERIC_COLS rs" ..
  then have loop: "corr_loop self [] CREDIT_NUMERIC_COLS = Inr rs"
    unfolding corr_loop_Inr by simp
  have len: "length rs = length CREDIT_NUMERIC_COLS"
    using list_all2_lengthD [OF rs] by simp
  let ?m = "zip CREDIT_NUMERIC_COLS rs"
  have run: "correlation_with_default self = Inr ?m"
    by (simp add: correlation_with_default_def loop make_series_def len)
  have idx: "map fst ?m = CREDIT_NUMERIC_COLS" using len by simp
  have l29: "length ?m = 29" using len CREDIT_NUMERIC_COLS_length by simp
  have each: "(\<exists>s. getitem (df self) c = Inr s \<and> series_corr s t = Inr r)
               \<and> (r = None \<or> (\<exists>x. r = Some x \<and> - 1 \<le> x \<and> x \<le> 1))"
    if "(c, r) \<in> set ?m" for c r
  proof -
    from that rs have "?P c r"
      by (auto simp: in_set_zip list_all2_conv_all_nth)
    then obtain s where s: "getitem (df self) c = Inr s" "series_corr s t = Inr r"
      using target(1) by auto
    then have "r = None \<or> (\<exists>x. r = Some x \<and> - 1 \<le> x \<and> x \<le> 1)"
      unfolding series_corr_Inr using pearson_range by auto
    with s show ?thesis by blast
  qed
  show ?thesis using run idx l29 each by (intro exI [of _ ?m]) auto
qed

section \<open>Quantile buckets\<close>

lemma hd_unique: "xs \<noteq> [] \<Longrightarrow> hd (unique xs) = hd xs"
proof (induction xs rule: rev_induct)
  case Nil
  then show ?case by simp
next
  case (snoc x xs)
  show ?case
  proof (cases "xs = []")
    case True
    then show ?thesis by (simp add: unique_def)
  next
    case False
    have ne: "rev (remdups (rev xs)) \<noteq> []" using False by simp
    with snoc False show ?thesis
      by (auto simp: unique_def hd_append)
  qed
qed

lemma length_unique_le: "length (unique xs) \<le> length xs"
  by (simp add: unique_def length_remdups_leq [of "rev xs", simplified])

lemma length_unique_card: "length (unique xs) = card (set xs)"
  unfolding unique_def by (simp add: length_remdups_card_conv)

lemma unique_distinct_id: "distinct xs \<Longrightarrow> unique xs = xs"
  by (simp add: unique_def distinct_remdups_id)

lemma drop_duplicate_edges_set: "set (drop_duplicate_edges bs) = set bs"
  by (simp add: drop_duplicate_edges_def Let_def)

lemma drop_duplicate_edges_hd: "bs \<noteq> [] \<Longrightarrow> hd (drop_duplicate_edges bs) = hd bs"
  by (simp add: drop_duplicate_edges_def Let_def hd_unique)

lemma drop_duplicate_edges_length: "length (drop_duplicate_edges bs) \<le> length bs"
  by (simp add: drop_duplicate_edges_def Let_def length_unique_le)

lemma drop_duplicate_edges_distinct: "distinct bs \<Longrightarrow> drop_duplicate_edges bs = bs"
  by (simp add: drop_duplicate_edges_def Let_def unique_distinct_id)

lemma quantile_edges_length: "length (quantile_edges v q) = q + 1"
  by (simp add: quantile_edges_def)

lemma interpolate_first: "interpolate xs 0 q = xs ! 0"
  by (simp add: interpolate_def)

lemma interpolate_last: "0 < q \<Longrightarrow> interpolate xs q q = xs ! (length xs - 1)"
  by (simp add: interpolate_def)

lemma quantile_edges_hd: "hd (quantile_edges v q) = sort v ! 0"
  by (simp add: quantile_edges_def hd_map interpolate_first upt_conv_Cons del: upt_Suc)

lemma quantile_edges_max: "0 < q \<Longrightarrow> sort v ! (length v - 1) \<in> set (quantile_edges v q)"
proof -
  assume q: "0 < q"
  have "interpolate (sort v) q q \<in> set (quantile_edges v q)"
    unfolding quantile_edges_def by (auto simp: image_iff intro!: bexI [of _ q])
  then show ?thesis using interpolate_last [OF q, of "sort v"] by simp
qed

lemma sort_bounds:
  fixes v :: "real list"
  assumes "x \<in> set v"
  shows "sort v ! 0 \<le> x" and "x \<le> sort v ! (length v - 1)"
proof -
  from assms have "x \<in> set (sort v)" by simp
  then obtain i where i: "i < length (sort v)" "sort v ! i = x"
    unfolding in_set_conv_nth by blast
  have s: "sorted (sort v)" by simp
  show "sort v ! 0 \<le> x"
    using sorted_nth_mono [OF s, of 0 i] i by simp
  show "x \<le> sort v ! (length v - 1)"
    using sorted_nth_mono [OF s, of i "length v - 1"] i by simp
qed

lemma sort_ends_distinct:
  fixes v :: "real list"
  assumes "2 \<le> card (set v)"
  shows "sort v ! 0 \<noteq> sort v ! (length v - 1)"
proof
  assume eq: "sort v ! 0 = sort v ! (length v - 1)"
  have "set v \<subseteq> {sort v ! 0}"
  proof
    fix x assume "x \<in> set v"
    from sort_bounds [OF this] eq show "x \<in> {sort v ! 0}" by simp
  qed
  then have "card (set v) \<le> card {sort v ! 0}"
    by (intro card_mono) auto
  with assms show False by simp
qed

lemma takeWhile_short:
  "m \<in> set bs \<Longrightarrow> \<not> P m \<Longrightarrow> length (takeWhile P bs) < length bs"
  by (induction bs) auto

lemma takeWhile_nonempty:
  "bs \<noteq> [] \<Longrightarrow> P (hd bs) \<Longrightarrow> 0 < length (takeWhile P bs)"
  by (cases bs) auto

lemma bucket_code_in_range:
  assumes len: "2 \<le> length bs" and lo: "hd bs \<le> x" and hi: "m \<in> set bs" "x \<le> m"
  shows "\<exists>j < length bs - 1. bucket_code bs x = Some j"
proof (cases "x = hd bs")
  case True
  then show ?thesis using len by (simp add: bucket_code_def)
next
  case False
  let ?ids = "searchsorted_left bs x"
  have ne: "bs \<noteq> []" using len by auto
  have "hd bs < x" using lo False by simp
  then have pos: "0 < ?ids"
    unfolding searchsorted_left_def by (intro takeWhile_nonempty [OF ne])
  have lt: "?ids < length bs"
    unfolding searchsorted_left_def using hi by (intro takeWhile_short [of m]) auto
  show ?thesis
    using False pos lt by (auto simp: bucket_code_def Let_def)
qed

lemma sum_list_filter_zero:
  fixes f :: "'a \<Rightarrow> nat"
  shows "\<forall>x \<in> set xs. \<not> P x \<longrightarrow> f x = 0 \<Longrightarrow> sum_list (map f (filter P xs)) = sum_list (map f xs)"
  by (induction xs) auto

lemma group_values_Cons:
  "group_values (c # cs) (t # ts) k = (if c = k then [t] else []) @ group_values cs ts k"
  by (simp add: group_values_def)

lemma group_values_absent: "k \<notin> set cs \<Longrightarrow> group_values cs ts k = []"
  unfolding group_values_def by (auto simp: filter_empty_conv dest: set_zip_leftD)

lemma bucket_counts_sum:
  assumes "length cs = length ts" and "\<forall>j. Some j \<in> set cs \<longrightarrow> j < m"
  shows "(\<Sum>j\<leftarrow>[0..<m]. length (dropna (group_values cs ts (Some j))))
           = length (filter (\<lambda>(c, t). c \<noteq> None \<and> t \<noteq> None) (zip cs ts))"
  using assms
proof (induction cs ts rule: list_induct2)
  case Nil
  then show ?case by (simp add: group_values_def)
next
  case (Cons c cs t ts)
  have IH: "(\<Sum>j\<leftarrow>[0..<m]. length (dropna (group_values cs ts (Some j))))
           = length (filter (\<lambda>(c, t). c \<noteq> None \<and> t \<noteq> None) (zip cs ts))"
    using Cons by simp
  have split: "(\<Sum>j\<leftarrow>[0..<m]. length (dropna (group_values (c # cs) (t # ts) (Some j))))
      = (\<Sum>j\<leftarrow>[0..<m]. if c = Some j \<and> t \<noteq> None then 1 else 0)
        + (\<Sum>j\<leftarrow>[0..<m]. length (dropna (group_values cs ts (Some j))))"
    unfolding sum_list_addf [symmetric]
    by (rule arg_cong [where f = sum_list], rule map_cong [OF refl])
       (cases t; simp add: group_values_Cons)
  have one: "(\<Sum>j\<leftarrow>[0..<m]. if c = Some j \<and> t \<noteq> None then 1 else 0)
      = (if c \<noteq> None \<and> t \<noteq> None then (1::nat) else 0)"
  proof (cases c)
    case None
    then show ?thesis by simp
  next
    case (Some j0)
    with Cons.prems have j0: "j0 < m" by simp
    have "(\<Sum>j\<leftarrow>[0..<m]. if Some j0 = Some j \<and> t \<noteq> None then 1 else 0)
        = (\<Sum>j\<in>{0..<m}. if j = j0 then (if t \<noteq> None then 1 else 0) else (0::nat))"
      unfolding interv_sum_list_conv_sum_set_nat
      by (rule sum.cong) auto
    also have "\<dots> = (if t \<noteq> None then 1 else 0)"
      using j0 by simp
    finally show ?thesis using Some by simp
  qed
  show ?case unfolding split one IH by simp
qed

lemma both_present_count:
  assumes "length xs = length ts" and "None \<notin> set ts"
  shows "length (filter (\<lambda>(x, t). x \<noteq> None \<and> t \<noteq> None) (zip xs ts)) = length (dropna xs)"
  using assms
proof (induction xs ts rule: list_induct2)
  case Nil
  then show ?case by simp
next
  case (Cons x xs t ts)
  then show ?case by (cases x; cases t) auto
qed

lemma numeric_values_length: "numeric_values s = Some xs \<Longrightarrow> length (cells s) = length xs"
  by (cases s) auto

lemma qcut_edges_facts:
  fixes v :: "real list"
  assumes q: "0 < q" and card: "q \<le> card (set v)"
  defines "bs \<equiv> drop_duplicate_edges (quantile_edges v q)"
  shows "2 \<le> length bs" and "length bs \<le> q + 1"
    and "\<forall>x \<in> set v. \<exists>j < length bs - 1. bucket_code bs x = Some j"
proof -
  let ?E = "quantile_edges v q"
  have neE: "?E \<noteq> []" using quantile_edges_length [of v q] by auto
  have hd: "hd bs = sort v ! 0"
    unfolding bs_def by (simp add: drop_duplicate_edges_hd [OF neE] quantile_edges_hd)
  have mx: "sort v ! (length v - 1) \<in> set bs"
    unfolding bs_def drop_duplicate_edges_set by (rule quantile_edges_max [OF q])
  have mn: "sort v ! 0 \<in> set bs"
    unfolding bs_def drop_duplicate_edges_set
    using quantile_edges_hd [of v q] hd_in_set [OF neE] by simp
  show len2: "2 \<le> length bs"
  proof (cases "bs = ?E")
    case True
    then show ?thesis using quantile_edges_length [of v q] q by simp
  next
    case False
    then have u: "bs = unique ?E" and "length ?E \<noteq> 2"
      unfolding bs_def drop_duplicate_edges_def Let_def by (auto split: if_splits)
    then have "q \<noteq> 1" using quantile_edges_length [of v q] by auto
    with q card have "2 \<le> card (set v)" by simp
    from sort_ends_distinct [OF this] mn mx
    have "{sort v ! 0, sort v ! (length v - 1)} \<subseteq> set bs"
      and "card {sort v ! 0, sort v ! (length v - 1)} = 2" by auto
    then have "2 \<le> card (set bs)"
      by (metis card_mono List.finite_set)
    then show ?thesis using card_length [of bs] by simp
  qed
  show "length bs \<le> q + 1"
    unfolding bs_def using drop_duplicate_edges_length [of ?E] quantile_edges_length [of v q]
    by simp
  show "\<forall>x \<in> set v. \<exists>j < length bs - 1. bucket_code bs x = Some j"
  proof
    fix x assume x: "x \<in> set v"
    show "\<exists>j < length bs - 1. bucket_code bs x = Some j"
      using bucket_code_in_range [OF len2, of x "sort v ! (length v - 1)"]
        sort_bounds [OF x] hd mx by simp
  qed
qed

lemma coded_present_count:
  assumes "\<forall>x \<in> set xs. g x \<noteq> None \<longleftrightarrow> x \<noteq> None"
  shows "length (filter (\<lambda>(c, t). c \<noteq> None \<and> t \<noteq> None) (zip (map g xs) ts))
           = length (filter (\<lambda>(x, t). x \<noteq> None \<and> t \<noteq> None) (zip xs ts))"
  using assms
proof (induction xs arbitrary: ts)
  case Nil
  then show ?case by simp
next
  case (Cons x xs)
  then show ?case by (cases ts) auto
qed

text \<open>
  Claim C1, as amended. For a numeric column with at least \<open>bins\<close> distinct values, \<open>bins\<close>
  at least 1, and a numeric target, \<^verbatim>\<open>default_rate_by_bucket(col, bins)\<close> returns at most
  \<open>bins\<close> rows: repeated quantile edges are dropped, so having \<open>bins\<close> distinct values does not
  give \<open>bins\<close> buckets. It returns exactly \<open>bins\<close> rows when the \<open>bins + 1\<close> quantile edges
  are pairwise distinct and every category is listed. The \<^verbatim>\<open>n_loans\<close> values sum to the number
  of rows where both the column and the target have a value, which is the number of rows
  with a value in the column when the target has no missing value.
\<close>

theorem default_rate_by_bucket_rows:
  assumes wf: "wf_df (df self)"
    and col: "getitem (df self) col = Inr s"
    and num: "numeric_values s = Some xs"
    and bins: "1 \<le> bins"
    and card: "nat bins \<le> card (set (dropna xs))"
    and target: "getitem (df self) (target_col self) = Inr target"
    and tnum: "numeric_values target = Some ts"
  shows "\<exists>rows. default_rate_by_bucket observed self col bins = Inr rows
           \<and> length rows \<le> nat bins
           \<and> (\<not> observed \<and> distinct (quantile_edges (dropna xs) (nat bins))
                \<longrightarrow> length rows = nat bins)
           \<and> sum_list (map n_loans rows)
               = length (filter (\<lambda>(x, t). x \<noteq> None \<and> t \<noteq> None) (zip xs ts))
           \<and> (None \<notin> set ts \<longrightarrow> sum_list (map n_loans rows) = length (dropna xs))"
proof -
  let ?v = "dropna xs"
  let ?q = "nat bins"
  let ?bs = "drop_duplicate_edges (quantile_edges ?v ?q)"
  let ?code = "\<lambda>c. case c of None \<Rightarrow> None | Some x \<Rightarrow> bucket_code ?bs x"
  let ?cs = "map ?code xs"
  let ?cats = "zip (butlast ?bs) (tl ?bs)"
  let ?m = "length ?cats"
  let ?keep = "\<lambda>j. \<not> observed \<or> Some j \<in> set ?cs"
  let ?row = "\<lambda>j. let g = group_values ?cs ts (Some j) in
                 \<lparr> bucket = ?cats ! j, n_loans = length (dropna g), default_rate = nanmean g \<rparr>"
  let ?rows = "map ?row (filter ?keep [0..<?m])"
  have q: "0 < ?q" using bins by simp
  have vne: "?v \<noteq> []" using card q by (cases "?v") auto
  note facts = qcut_edges_facts [OF q card]
  have m: "?m = length ?bs - 1" by simp
  have cut: "qcut s bins = Inr \<lparr> categories = ?cats, codes = ?cs \<rparr>"
    using bins vne by (simp add: qcut_def num Let_def)
  have run: "default_rate_by_bucket observed self col bins = Inr ?rows"
    by (simp add: default_rate_by_bucket_def col cut target groupby_bucket_agg_def tnum)
  have len_le: "length ?rows \<le> ?q"
  proof -
    have "length ?rows \<le> ?m" using length_filter_le [of ?keep "[0..<?m]"] by simp
    also have "\<dots> \<le> ?q" using facts(2) by simp
    finally show ?thesis .
  qed
  have exact: "length ?rows = ?q" if "\<not> observed" "distinct (quantile_edges ?v ?q)"
  proof -
    have "?bs = quantile_edges ?v ?q" by (rule drop_duplicate_edges_distinct [OF that(2)])
    then have "?m = ?q" by (simp add: quantile_edges_length)
    with that(1) show ?thesis by simp
  qed
  have lens: "length xs = length ts"
    using wf_df_length [OF wf col] wf_df_length [OF wf target]
      numeric_values_length [OF num] numeric_values_length [OF tnum] by simp
  have code_some: "\<exists>j < ?m. ?code (Some x) = Some j" if "Some x \<in> set xs" for x
    using facts(3) that by simp
  have bound: "\<forall>j. Some j \<in> set ?cs \<longrightarrow> j < ?m"
  proof (intro allI impI)
    fix j assume "Some j \<in> set ?cs"
    then obtain c where c: "c \<in> set xs" "?code c = Some j" by auto
    from c(2) obtain x where "c = Some x" by (cases c) auto
    with c code_some [of x] show "j < ?m" by auto
  qed
  have zero: "\<forall>j \<in> set [0..<?m]. \<not> ?keep j \<longrightarrow> length (dropna (group_values ?cs ts (Some j))) = 0"
    by (auto simp: group_values_absent)
  have "sum_list (map n_loans ?rows)
      = (\<Sum>j\<leftarrow>filter ?keep [0..<?m]. length (dropna (group_values ?cs ts (Some j))))"
    by (simp add: comp_def Let_def)
  also have "\<dots> = (\<Sum>j\<leftarrow>[0..<?m]. length (dropna (group_values ?cs ts (Some j))))"
    by (rule sum_list_filter_zero [OF zero])
  also have "\<dots> = length (filter (\<lambda>(c, t). c \<noteq> None \<and> t \<noteq> None) (zip ?cs ts))"
    by (rule bucket_counts_sum) (use lens bound in auto)
  also have "\<dots> = length (filter (\<lambda>(x, t). x \<noteq> None \<and> t \<noteq> None) (zip xs ts))"
  proof (rule coded_present_count, rule ballI)
    fix x assume x: "x \<in> set xs"
    show "?code x \<noteq> None \<longleftrightarrow> x \<noteq> None"
    proof (cases x)
      case None
      then show ?thesis by simp
    next
      case (Some a)
      with x have "Some a \<in> set xs" by simp
      from code_some [OF this] Some show ?thesis by auto
    qed
  qed
  finally have total: "sum_list (map n_loans ?rows)
      = length (filter (\<lambda>(x, t). x \<noteq> None \<and> t \<noteq> None) (zip xs ts))" .
  have full: "sum_list (map n_loans ?rows) = length (dropna xs)" if "None \<notin> set ts"
    unfolding total by (rule both_present_count [OF lens that])
  show ?thesis
    using run len_le exact total full by (intro exI [of _ ?rows]) blast
qed

lemma credit_example_lookup:
  "getitem (df credit_example) ''dti'' = Inr (IntCol [0, 0, 1])"
  "getitem (df credit_example) ''revol_util'' = Inr (IntCol [0, 0, 1])"
  "getitem (df credit_example) ''loan_status'' = Inr (IntCol [0, 1, 1])"
  by (simp_all add: getitem_def credit_example_def CREDIT_NUMERIC_COLS_def)

lemma credit_example_target: "target_col credit_example = ''loan_status''"
  by (simp add: credit_example_def)

lemma credit_example_wf: "wf_df (df credit_example)"
  by (simp add: credit_example_def wf_df_def CREDIT_NUMERIC_COLS_def)

lemma example_edges: "drop_duplicate_edges (quantile_edges [0, 0, 1] 2) = [0, 1]"
  by (simp add: quantile_edges_def interpolate_def drop_duplicate_edges_def unique_def
        upt_conv_Cons Let_def del: upt_Suc)

lemma example_cut:
  "qcut (IntCol [0, 0, 1]) 2 = Inr \<lparr> categories = [(0, 1)], codes = [Some 0, Some 0, Some 0] \<rparr>"
  by (simp add: qcut_def example_edges bucket_code_def searchsorted_left_def)

lemma credit_example_buckets:
  "default_rate_by_bucket observed credit_example ''dti'' 2 =
     Inr [\<lparr> bucket = (0, 1), n_loans = 3, default_rate = Some (2 / 3) \<rparr>]"
  by (simp add: default_rate_by_bucket_def credit_example_lookup credit_example_target example_cut
        groupby_bucket_agg_def group_values_def nanmean_def)

theorem default_rate_by_bucket_counterexample:
  "getitem (df credit_example) ''dti'' = Inr (IntCol [0, 0, 1])
   \<and> nunique (IntCol [0, 0, 1]) = 2
   \<and> default_rate_by_bucket False credit_example ''dti'' 2 =
       Inr [\<lparr> bucket = (0, 1), n_loans = 3, default_rate = Some (2 / 3) \<rparr>]
   \<and> default_rate_by_bucket True credit_example ''dti'' 2 =
       Inr [\<lparr> bucket = (0, 1), n_loans = 3, default_rate = Some (2 / 3) \<rparr>]
   \<and> length [\<lparr> bucket = (0, 1), n_loans = 3, default_rate = Some (2 / 3) \<rparr>] \<noteq> (2::nat)"
  by (simp add: credit_example_lookup credit_example_buckets nunique_def)

text \<open>
  Claim C6, as amended. On a frame that has the 29 columns of the credit universe, all of
  them numeric, and a numeric target column, \<^verbatim>\<open>correlation_with_default\<close> returns a mapping
  indexed by every universe column, in the order of \<^verbatim>\<open>CREDIT_NUMERIC_COLS\<close>; each value is the
  correlation of that column with the target: the not-a-number sentinel or a number between
  -1 and 1. A column read as text makes the call fail instead.
\<close>

theorem correlation_with_default_index:
  assumes "set CREDIT_NUMERIC_COLS \<subseteq> fst ` set (columns (df self))"
    and "\<forall>c \<in> set CREDIT_NUMERIC_COLS. \<forall>s. getitem (df self) c = Inr s \<longrightarrow> is_numeric s"
    and "getitem (df self) (target_col self) = Inr t" and "is_numeric t"
  shows "\<exists>m. correlation_with_default self = Inr m
           \<and> map fst m = CREDIT_NUMERIC_COLS
           \<and> length m = 29
           \<and> (\<forall>(c, r) \<in> set m.
                 (\<exists>s. getitem (df self) c = Inr s \<and> series_corr s t = Inr r)
               \<and> (r = None \<or> (\<exists>x. r = Some x \<and> - 1 \<le> x \<and> x \<le> 1)))"
  using assms by (rule correlation_with_default_ok)

lemma credit_example_numeric:
  "\<forall>c \<in> set CREDIT_NUMERIC_COLS. \<forall>s. getitem (df credit_example) c = Inr s \<longrightarrow> is_numeric s"
proof (intro ballI allI impI)
  fix c s assume "getitem (df credit_example) c = Inr s"
  then have "(c, s) \<in> set (columns (df credit_example))"
    by (auto simp: getitem_def split: option.splits dest: map_of_SomeD)
  then show "is_numeric s"
    by (auto simp: credit_example_def is_numeric_def)
qed

lemma credit_example_target_lookup:
  "getitem (df credit_example) (target_col credit_example) = Inr (IntCol [0, 1, 1])"
  by (simp add: credit_example_target credit_example_lookup)

theorem correlation_with_default_index_witness:
  "set CREDIT_NUMERIC_COLS \<subseteq> fst ` set (columns (df credit_example))
   \<and> list_all (\<lambda>c. getitem (df credit_example) c = Inr (IntCol [0, 0, 1])) CREDIT_NUMERIC_COLS
   \<and> is_numeric (IntCol [0, 0, 1])
   \<and> getitem (df credit_example) (target_col credit_example) = Inr (IntCol [0, 1, 1])
   \<and> is_numeric (IntCol [0, 1, 1])
   \<and> (\<exists>m. correlation_with_default credit_example = Inr m
           \<and> map fst m = CREDIT_NUMERIC_COLS
           \<and> length m = 29
           \<and> (\<forall>(c, r) \<in> set m.
                 (\<exists>s. getitem (df credit_example) c = Inr s \<and> series_corr s (IntCol [0, 1, 1]) = Inr r)
               \<and> (r = None \<or> (\<exists>x. r = Some x \<and> - 1 \<le> x \<and> x \<le> 1))))"
proof -
  have n: "is_numeric (IntCol [0, 1, 1])" "is_numeric (IntCol [0, 0, 1])"
    by (simp_all add: is_numeric_def)
  have l: "list_all (\<lambda>c. getitem (df credit_example) c = Inr (IntCol [0, 0, 1])) CREDIT_NUMERIC_COLS"
    by (simp add: getitem_def credit_example_def CREDIT_NUMERIC_COLS_def)
  show ?thesis
    using correlation_with_default_index [OF credit_example_cols credit_example_numeric
        credit_example_target_lookup n(1)]
      credit_example_cols l credit_example_target_lookup n
    by blast
qed

lemma credit_text_example_cols:
  "set CREDIT_NUMERIC_COLS \<subseteq> fst ` set (columns (df credit_text_example))"
  by (auto simp add: credit_text_example_def image_image CREDIT_NUMERIC_COLS_def)

lemma credit_text_example_corr: "correlation_with_default credit_text_example = Inl TypeError"
  by (simp add: correlation_with_default_def CREDIT_NUMERIC_COLS_def getitem_def
        credit_text_example_def series_corr_def)

theorem correlation_with_default_counterexample:
  "set CREDIT_NUMERIC_COLS \<subseteq> fst ` set (columns (df credit_example))
   \<and> \<not> isl (correlation_with_default credit_example)
   \<and> length (projr (correlation_with_default credit_example)) = 29
   \<and> length CREDIT_NUMERIC_COLS \<noteq> 28
   \<and> set CREDIT_NUMERIC_COLS \<subseteq> fst ` set (columns (df credit_text_example))
   \<and> getitem (df credit_text_example) (target_col credit_text_example) = Inr (IntCol [0, 1, 1])
   \<and> correlation_with_default credit_text_example = Inl TypeError"
proof -
  have n: "is_numeric (IntCol [0, 1, 1])" by (simp add: is_numeric_def)
  from correlation_with_default_ok [OF credit_example_cols credit_example_numeric
      credit_example_target_lookup n]
  obtain m where "correlation_with_default credit_example = Inr m" "length m = 29" by blast
  moreover have "getitem (df credit_text_example) (target_col credit_text_example)
      = Inr (IntCol [0, 1, 1])"
    by (simp add: getitem_def credit_text_example_def)
  ultimately show ?thesis
    using credit_example_cols credit_text_example_cols credit_text_example_corr
      CREDIT_NUMERIC_COLS_length by simp
qed

theorem default_rate_by_bucket_rows_witness:
  "wf_df (df credit_example)
   \<and> getitem (df credit_example) ''dti'' = Inr (IntCol [0, 0, 1])
   \<and> numeric_values (IntCol [0, 0, 1]) = Some [Some 0, Some 0, Some 1]
   \<and> (1::int) \<le> 2
   \<and> nat 2 \<le> card (set (dropna [Some 0, Some 0, Some (1::real)]))
   \<and> getitem (df credit_example) (target_col credit_example) = Inr (IntCol [0, 1, 1])
   \<and> numeric_values (IntCol [0, 1, 1]) = Some [Some 0, Some 1, Some 1]
   \<and> (\<exists>rows. default_rate_by_bucket False credit_example ''dti'' 2 = Inr rows
           \<and> length rows \<le> nat 2
           \<and> (\<not> False \<and> distinct (quantile_edges (dropna [Some 0, Some 0, Some 1]) (nat 2))
                \<longrightarrow> length rows = nat 2)
           \<and> sum_list (map n_loans rows)
               = length (filter (\<lambda>(x, t). x \<noteq> None \<and> t \<noteq> None)
                          (zip [Some 0, Some 0, Some (1::real)] [Some 0, Some 1, Some (1::real)]))
           \<and> (None \<notin> set [Some 0, Some 1, Some (1::real)]
                \<longrightarrow> sum_list (map n_loans rows) = length (dropna [Some 0, Some 0, Some (1::real)])))"
proof -
  have a: "numeric_values (IntCol [0, 0, 1]) = Some [Some 0, Some 0, Some 1]" by simp
  have b: "(1::int) \<le> 2" by simp
  have c: "nat 2 \<le> card (set (dropna [Some 0, Some 0, Some (1::real)]))" by simp
  have d: "numeric_values (IntCol [0, 1, 1]) = Some [Some 0, Some 1, Some 1]" by simp
  show ?thesis
    using default_rate_by_bucket_rows [OF credit_example_wf credit_example_lookup(1) a b c
        credit_example_target_lookup d, of False]
      credit_example_wf credit_example_lookup(1) a b c credit_example_target_lookup d
    by blast
qed

end
